theory Spec2Isabelle
  imports Main "HOL-Library.Word"
begin

section \<open>Machine types of compression.c\<close>

text \<open>
  The functions of \<^verbatim>\<open>src/lib/OpenEXRCore/compression.c\<close> compute with
  \<^verbatim>\<open>size_t\<close> (64 bits wide here, unsigned, wrapping), with \<^verbatim>\<open>int\<close> (32 bits,
  signed: overflow is undefined behaviour) and with pointers. A pointer is its address,
  a 64-bit word; the null pointer is address 0.
\<close>

type_synonym size_t = "64 word"
type_synonym addr = "64 word"
type_synonym byte = "8 word"

definition SIZE_MAX :: size_t where
  "SIZE_MAX = 18446744073709551615"

definition INT_MAX :: int where
  "INT_MAX = 2147483647"

definition NULL :: addr where
  "NULL = 0"

text \<open>\<^verbatim>\<open>#define EXR_DEFAULT_ZLIB_COMPRESS_LEVEL 4\<close>\<close>

definition EXR_DEFAULT_ZLIB_COMPRESS_LEVEL :: int where
  "EXR_DEFAULT_ZLIB_COMPRESS_LEVEL = 4"

section \<open>The bound estimator\<close>

text \<open>
  \<^verbatim>\<open>internal_compress_pad_buffer_size (size_t in_bytes, size_t r)\<close>, lines 18 to 45,
  statement by statement. Every operator is the 64-bit one: \<open>+\<close> and \<open>*\<close> wrap,
  \<open>div\<close> truncates, the comparisons are unsigned.
\<close>

definition internal_compress_pad_buffer_size :: "size_t \<Rightarrow> size_t \<Rightarrow> size_t" where
  "internal_compress_pad_buffer_size in_bytes r =
     (if r > SIZE_MAX - 9 then SIZE_MAX
      else
        let r1 = r + 9;
            extra = in_bytes * 130
        in
          if extra < in_bytes then SIZE_MAX
          else
            let extra1 = extra div 128
            in
              if extra1 > SIZE_MAX - 100 then SIZE_MAX
              else if extra1 > r1 then extra1 else r1)"

section \<open>The engine and the memory it works on\<close>

text \<open>
  Memory is typed: the bytes of the input and output buffers, and the \<^verbatim>\<open>size_t\<close>
  objects that out-parameters point to.
\<close>

record heap =
  bytes :: "addr \<Rightarrow> byte"
  cells :: "addr \<Rightarrow> size_t"

text \<open>
  \<^verbatim>\<open>struct libdeflate_gdeflate_out_page { void *data; size_t nbytes; }\<close>. An array of
  them is a function from the index to the element: C arrays carry no length.
\<close>

record libdeflate_gdeflate_out_page =
  data :: addr
  nbytes :: size_t

text \<open>\<^verbatim>\<open>struct libdeflate_gdeflate_in_page\<close>: the data pointer and the length.\<close>

type_synonym libdeflate_gdeflate_in_page = "addr \<times> size_t"

datatype libdeflate_result =
    LIBDEFLATE_SUCCESS
  | LIBDEFLATE_BAD_DATA
  | LIBDEFLATE_SHORT_OUTPUT
  | LIBDEFLATE_INSUFFICIENT_SPACE

text \<open>The three codes of \<^verbatim>\<open>exr_result_t\<close> that compression.c returns.\<close>

datatype exr_result_t =
    EXR_ERR_SUCCESS
  | EXR_ERR_OUT_OF_MEMORY
  | EXR_ERR_CORRUPT_CHUNK

text \<open>
  The compression engine (libdeflate) is an external library: its functions are the
  fields of a record, and every theorem holds for every engine unless it says which
  results of the engine it assumes. An allocator returns the context pointer, \<open>NULL\<close>
  when it fails. A function that writes through its pointer arguments takes the heap and
  returns the new one; \<open>zlib_decompress_ex\<close> also returns what it stores in the
  caller's local \<^verbatim>\<open>actual_in_bytes\<close>, and \<open>gdeflate_compress\<close> the descriptor array as
  it leaves it.
\<close>

record engine =
  zlib_compress_bound :: "size_t \<Rightarrow> size_t"
  gdeflate_compress_bound :: "size_t \<Rightarrow> size_t \<times> size_t"
  alloc_compressor :: "int \<Rightarrow> addr"
  zlib_compress :: "addr \<Rightarrow> addr \<Rightarrow> size_t \<Rightarrow> addr \<Rightarrow> size_t \<Rightarrow> heap \<Rightarrow> size_t \<times> heap"
  alloc_decompressor :: "addr"
  zlib_decompress_ex ::
    "addr \<Rightarrow> addr \<Rightarrow> size_t \<Rightarrow> addr \<Rightarrow> size_t \<Rightarrow> addr \<Rightarrow> heap \<Rightarrow> libdeflate_result \<times> size_t \<times> heap"
  alloc_gdeflate_compressor :: "int \<Rightarrow> addr"
  gdeflate_compress ::
    "addr \<Rightarrow> addr \<Rightarrow> size_t \<Rightarrow> (nat \<Rightarrow> libdeflate_gdeflate_out_page) \<Rightarrow> size_t \<Rightarrow> heap
      \<Rightarrow> size_t \<times> (nat \<Rightarrow> libdeflate_gdeflate_out_page) \<times> heap"
  alloc_gdeflate_decompressor :: "addr"
  gdeflate_decompress ::
    "addr \<Rightarrow> libdeflate_gdeflate_in_page \<Rightarrow> size_t \<Rightarrow> addr \<Rightarrow> size_t \<Rightarrow> addr \<Rightarrow> heap
      \<Rightarrow> libdeflate_result \<times> heap"

text \<open>
  The calls that acquire and release a context are recorded as events, in the order the
  function makes them: an allocation with its level argument (where it has one) and the
  pointer it returned, a release with the pointer released. The page-split compression
  call is recorded with the descriptors it is handed.
\<close>

datatype event =
    Alloc_compressor int addr
  | Free_compressor addr
  | Alloc_decompressor addr
  | Free_decompressor addr
  | Alloc_gdeflate_compressor int addr
  | Gdeflate_compress addr "libdeflate_gdeflate_out_page list"
  | Free_gdeflate_compressor addr
  | Alloc_gdeflate_decompressor addr
  | Free_gdeflate_decompressor addr

text \<open>
  A call either returns a result code or does not return: it writes through a null
  pointer, or its \<^verbatim>\<open>int\<close> loop counter overflows, both undefined behaviour in C.
\<close>

datatype fault = Null_dereference | Signed_overflow | Division_by_zero

datatype outcome = Returned exr_result_t | Crashed fault

type_synonym run = "outcome \<times> heap \<times> event list"

definition result_of :: "run \<Rightarrow> outcome" where
  "result_of x = fst x"

definition heap_of :: "run \<Rightarrow> heap" where
  "heap_of x = fst (snd x)"

definition trace_of :: "run \<Rightarrow> event list" where
  "trace_of x = snd (snd x)"

text \<open>The contexts a trace leaves allocated: each successful allocation, less the releases.\<close>

datatype resource =
    Compressor addr
  | Decompressor addr
  | Gdeflate_compressor addr
  | Gdeflate_decompressor addr

fun acquire :: "addr \<Rightarrow> resource \<Rightarrow> resource list \<Rightarrow> resource list" where
  "acquire p c cs = (if p = NULL then cs else c # cs)"

fun track :: "resource list \<Rightarrow> event \<Rightarrow> resource list" where
  "track cs (Alloc_compressor l p) = acquire p (Compressor p) cs"
| "track cs (Free_compressor p) = remove1 (Compressor p) cs"
| "track cs (Alloc_decompressor p) = acquire p (Decompressor p) cs"
| "track cs (Free_decompressor p) = remove1 (Decompressor p) cs"
| "track cs (Alloc_gdeflate_compressor l p) = acquire p (Gdeflate_compressor p) cs"
| "track cs (Gdeflate_compress p ds) = cs"
| "track cs (Free_gdeflate_compressor p) = remove1 (Gdeflate_compressor p) cs"
| "track cs (Alloc_gdeflate_decompressor p) = acquire p (Gdeflate_decompressor p) cs"
| "track cs (Free_gdeflate_decompressor p) = remove1 (Gdeflate_decompressor p) cs"

definition held :: "event list \<Rightarrow> resource list" where
  "held tr = foldl track [] tr"

section \<open>The public functions\<close>

text \<open>\<^verbatim>\<open>exr_compress_max_buffer_size\<close>, lines 47 to 52.\<close>

definition exr_compress_max_buffer_size :: "engine \<Rightarrow> size_t \<Rightarrow> size_t" where
  "exr_compress_max_buffer_size eng in_bytes =
     (let r = zlib_compress_bound eng in_bytes
      in internal_compress_pad_buffer_size in_bytes r)"

text \<open>
  \<^verbatim>\<open>exr_compress_gdeflate_max_buffer_size\<close>, lines 54 to 61: the bound, the page count
  the engine stored and the page size. The division traps when the engine stores a page
  count of zero.
\<close>

definition exr_compress_gdeflate_max_buffer_size ::
  "engine \<Rightarrow> size_t \<Rightarrow> fault + (size_t \<times> size_t \<times> size_t)" where
  "exr_compress_gdeflate_max_buffer_size eng in_bytes =
     (case gdeflate_compress_bound eng in_bytes of
        (r0, out_page_count) \<Rightarrow>
          let r = internal_compress_pad_buffer_size in_bytes r0
          in if out_page_count = 0 then Inl Division_by_zero
             else Inr (r, out_page_count, r div out_page_count))"

text \<open>
  \<^verbatim>\<open>exr_compress_buffer\<close>, lines 65 to 105. The accessor
  \<^verbatim>\<open>exr_get_default_zip_compression_level\<close> belongs to another file of the library;
  the value it stores into \<^verbatim>\<open>level\<close> is the parameter \<open>default_level\<close>, negative
  when no default is configured.
\<close>

definition exr_compress_buffer ::
  "engine \<Rightarrow> int \<Rightarrow> int \<Rightarrow> addr \<Rightarrow> size_t \<Rightarrow> addr \<Rightarrow> size_t \<Rightarrow> addr \<Rightarrow> heap \<Rightarrow> run" where
  "exr_compress_buffer eng default_level level inp in_bytes out out_bytes_avail actual_out h =
     (let level1 =
            (if level < 0
             then (let level2 = default_level
                   in if level2 < 0 then EXR_DEFAULT_ZLIB_COMPRESS_LEVEL else level2)
             else level);
          comp = alloc_compressor eng level1
      in
        if comp \<noteq> NULL then
          (case zlib_compress eng comp inp in_bytes out out_bytes_avail h of
             (outsz, h1) \<Rightarrow>
               if outsz \<noteq> 0 then
                 (Returned EXR_ERR_SUCCESS,
                  (if actual_out \<noteq> NULL
                   then h1\<lparr>cells := (cells h1)(actual_out := outsz)\<rparr>
                   else h1),
                  [Alloc_compressor level1 comp, Free_compressor comp])
               else
                 (Returned EXR_ERR_OUT_OF_MEMORY, h1,
                  [Alloc_compressor level1 comp, Free_compressor comp]))
        else (Returned EXR_ERR_OUT_OF_MEMORY, h, [Alloc_compressor level1 comp]))"

text \<open>\<^verbatim>\<open>exr_uncompress_buffer\<close>, lines 109 to 143.\<close>

definition exr_uncompress_buffer ::
  "engine \<Rightarrow> addr \<Rightarrow> size_t \<Rightarrow> addr \<Rightarrow> size_t \<Rightarrow> addr \<Rightarrow> heap \<Rightarrow> run" where
  "exr_uncompress_buffer eng inp in_bytes out out_bytes_avail actual_out h =
     (let decomp = alloc_decompressor eng
      in
        if decomp \<noteq> NULL then
          (case zlib_decompress_ex eng decomp inp in_bytes out out_bytes_avail actual_out h of
             (res, actual_in_bytes, h1) \<Rightarrow>
               if res = LIBDEFLATE_SUCCESS then
                 (if in_bytes = actual_in_bytes
                  then (Returned EXR_ERR_SUCCESS, h1,
                        [Alloc_decompressor decomp, Free_decompressor decomp])
                  else (Returned EXR_ERR_CORRUPT_CHUNK, h1,
                        [Alloc_decompressor decomp, Free_decompressor decomp]))
               else (Returned EXR_ERR_CORRUPT_CHUNK, h1,
                     [Alloc_decompressor decomp, Free_decompressor decomp]))
        else (Returned EXR_ERR_OUT_OF_MEMORY, h, [Alloc_decompressor decomp]))"

text \<open>
  The descriptor loop of \<^verbatim>\<open>exr_compress_buffer_gdeflate\<close>, lines 176 to 181:
  \<^verbatim>\<open>for (int i = 0; i <= last_page; ++i)\<close>. The counter is an \<^verbatim>\<open>int\<close>; the
  comparisons with \<^verbatim>\<open>last_page\<close> and the product with \<^verbatim>\<open>out_page_size\<close> convert it
  to \<^verbatim>\<open>size_t\<close>. \<^verbatim>\<open>++i\<close> at \<open>INT_MAX\<close> is a signed overflow.
\<close>

function out_pages_loop ::
  "addr \<Rightarrow> size_t \<Rightarrow> size_t \<Rightarrow> size_t \<Rightarrow> int \<Rightarrow> (nat \<Rightarrow> libdeflate_gdeflate_out_page)
    \<Rightarrow> fault + (nat \<Rightarrow> libdeflate_gdeflate_out_page)" where
  "out_pages_loop out out_bytes_avail out_page_size last_page i out_pages =
     (if (of_int i :: size_t) \<le> last_page then
        (let out_pages1 = out_pages(nat i :=
               \<lparr>data = out + of_int i * out_page_size,
                nbytes = (if (of_int i :: size_t) < last_page then out_page_size
                          else out_bytes_avail - last_page * out_page_size)\<rparr>)
         in if INT_MAX \<le> i then Inl Signed_overflow
            else out_pages_loop out out_bytes_avail out_page_size last_page (i + 1) out_pages1)
      else Inr out_pages)"
  by pat_completeness auto
termination
  by (relation "measure (\<lambda>(out, avail, psize, last_page, i, ps). nat (INT_MAX - i))") auto

declare out_pages_loop.simps [simp del]

text \<open>
  \<^verbatim>\<open>memmove (dest, src, n)\<close> on the byte memory: the \<open>n\<close> bytes from \<open>dest\<close> on
  receive the bytes that stood from \<open>src\<close> on before the call, whether or not the two
  ranges overlap.
\<close>

definition memmove :: "(addr \<Rightarrow> byte) \<Rightarrow> addr \<Rightarrow> addr \<Rightarrow> size_t \<Rightarrow> (addr \<Rightarrow> byte)" where
  "memmove m dest src n = (\<lambda>a. if a - dest < n then m (src + (a - dest)) else m a)"

text \<open>
  The compaction loop, lines 194 to 198: \<^verbatim>\<open>for (int i = 1; i < out_page_count; ++i)\<close>.
\<close>

function compact_loop ::
  "(nat \<Rightarrow> libdeflate_gdeflate_out_page) \<Rightarrow> size_t \<Rightarrow> int \<Rightarrow> addr \<Rightarrow> (addr \<Rightarrow> byte)
    \<Rightarrow> fault + (addr \<Rightarrow> byte)" where
  "compact_loop out_pages out_page_count i dest m =
     (if (of_int i :: size_t) < out_page_count then
        (let m1 = memmove m dest (data (out_pages (nat i))) (nbytes (out_pages (nat i)));
             dest1 = dest + nbytes (out_pages (nat i))
         in if INT_MAX \<le> i then Inl Signed_overflow
            else compact_loop out_pages out_page_count (i + 1) dest1 m1)
      else Inr m)"
  by pat_completeness auto
termination
  by (relation "measure (\<lambda>(ps, pc, i, dest, m). nat (INT_MAX - i))") auto

declare compact_loop.simps [simp del]

text \<open>
  \<^verbatim>\<open>exr_compress_buffer_gdeflate\<close>, lines 147 to 205. The variable-length array
  \<^verbatim>\<open>out_pages\<close> starts with indeterminate contents, written here as zeroes; the loop
  overwrites every element the function later reads.
\<close>

definition exr_compress_buffer_gdeflate ::
  "engine \<Rightarrow> int \<Rightarrow> int \<Rightarrow> addr \<Rightarrow> size_t \<Rightarrow> addr \<Rightarrow> size_t \<Rightarrow> size_t \<Rightarrow> size_t \<Rightarrow> addr \<Rightarrow> heap
    \<Rightarrow> run" where
  "exr_compress_buffer_gdeflate eng default_level level inp in_bytes out out_bytes_avail
       out_page_count out_page_size actual_out h =
     (let level1 =
            (if level < 0
             then (let level2 = default_level
                   in if level2 < 0 then EXR_DEFAULT_ZLIB_COMPRESS_LEVEL else level2)
             else level);
          comp = alloc_gdeflate_compressor eng level1
      in
        if comp \<noteq> NULL then
          (let out_page_count1 = (if out_page_count = 0 then 1 else out_page_count);
               last_page = out_page_count1 - 1
           in
             case out_pages_loop out out_bytes_avail out_page_size last_page 0
                    (\<lambda>i. \<lparr>data = 0, nbytes = 0\<rparr>) of
               Inl f \<Rightarrow> (Crashed f, h, [Alloc_gdeflate_compressor level1 comp])
             | Inr out_pages \<Rightarrow>
                 (let tr = [Alloc_gdeflate_compressor level1 comp,
                            Gdeflate_compress comp (map out_pages [0..<unat out_page_count1]),
                            Free_gdeflate_compressor comp]
                  in
                    case gdeflate_compress eng comp inp in_bytes out_pages out_page_count1 h of
                      (outsz, out_pages1, h1) \<Rightarrow>
                        if outsz \<noteq> 0 then
                          (let h2 = (if actual_out \<noteq> NULL
                                     then h1\<lparr>cells := (cells h1)(actual_out := outsz)\<rparr>
                                     else h1);
                               dest = data (out_pages1 0) + nbytes (out_pages1 0)
                           in
                             case compact_loop out_pages1 out_page_count1 1 dest (bytes h2) of
                               Inl f \<Rightarrow> (Crashed f, h2, tr)
                             | Inr m \<Rightarrow> (Returned EXR_ERR_SUCCESS, h2\<lparr>bytes := m\<rparr>, tr))
                        else (Returned EXR_ERR_OUT_OF_MEMORY, h1, tr)))
        else (Returned EXR_ERR_OUT_OF_MEMORY, h, [Alloc_gdeflate_compressor level1 comp]))"

text \<open>
  \<^verbatim>\<open>exr_uncompress_buffer_gdeflate\<close>, lines 209 to 239. Line 223 stores
  \<^verbatim>\<open>out_bytes_avail\<close> through \<^verbatim>\<open>actual_out\<close> without testing the pointer.
\<close>

definition exr_uncompress_buffer_gdeflate ::
  "engine \<Rightarrow> addr \<Rightarrow> size_t \<Rightarrow> addr \<Rightarrow> size_t \<Rightarrow> addr \<Rightarrow> heap \<Rightarrow> run" where
  "exr_uncompress_buffer_gdeflate eng inp in_bytes out out_bytes_avail actual_out h =
     (let in_page = (inp, in_bytes);
          decomp = alloc_gdeflate_decompressor eng
      in
        if decomp \<noteq> NULL then
          (if actual_out = NULL
           then (Crashed Null_dereference, h, [Alloc_gdeflate_decompressor decomp])
           else
             (let h0 = h\<lparr>cells := (cells h)(actual_out := out_bytes_avail)\<rparr>
              in
                case gdeflate_decompress eng decomp in_page 1 out out_bytes_avail actual_out h0 of
                  (res, h1) \<Rightarrow>
                    ((if res = LIBDEFLATE_SUCCESS then Returned EXR_ERR_SUCCESS
                      else Returned EXR_ERR_CORRUPT_CHUNK),
                     h1,
                     [Alloc_gdeflate_decompressor decomp, Free_gdeflate_decompressor decomp])))
        else (Returned EXR_ERR_OUT_OF_MEMORY, h, [Alloc_gdeflate_decompressor decomp]))"

section \<open>Vocabulary of the theorems\<close>

text \<open>
  Where page \<open>j\<close> starts in the compacted output: the used lengths of the pages before
  it, added up.
\<close>

fun used_before :: "(nat \<Rightarrow> libdeflate_gdeflate_out_page) \<Rightarrow> nat \<Rightarrow> nat" where
  "used_before ps 0 = 0"
| "used_before ps (Suc j) = used_before ps j + unat (nbytes (ps j))"

text \<open>
  One engine and one heap on which the theorems are run. The engine's allocators
  succeed; its compressor writes three bytes; its decompressor consumes five input
  bytes; its page-split compressor uses three bytes of page 0 and two bytes of every
  later page.
\<close>

definition sample_heap :: heap where
  "sample_heap = \<lparr>bytes = (\<lambda>a. 0), cells = (\<lambda>a. 0)\<rparr>"

definition sample_engine :: engine where
  "sample_engine =
     \<lparr>zlib_compress_bound = (\<lambda>n. n + 21),
      gdeflate_compress_bound = (\<lambda>n. (n + 64, 2)),
      alloc_compressor = (\<lambda>l. 4096),
      zlib_compress = (\<lambda>c inp n out avail h.
        (3, h\<lparr>bytes := (bytes h)(out := 1, out + 1 := 2, out + 2 := 3)\<rparr>)),
      alloc_decompressor = 4096,
      zlib_decompress_ex = (\<lambda>d inp n out avail actual_out h. (LIBDEFLATE_SUCCESS, 5, h)),
      alloc_gdeflate_compressor = (\<lambda>l. 4096),
      gdeflate_compress = (\<lambda>c inp n ps pc h.
        (5,
         (\<lambda>i. (ps i)\<lparr>nbytes := (if i = 0 then 3 else 2)\<rparr>),
         h\<lparr>bytes := (bytes h)(data (ps 0) := 10, data (ps 0) + 1 := 11, data (ps 0) + 2 := 12,
                                 data (ps 1) := 20, data (ps 1) + 1 := 21)\<rparr>)),
      alloc_gdeflate_decompressor = 4096,
      gdeflate_decompress = (\<lambda>d page n out avail actual_out h. (LIBDEFLATE_SUCCESS, h))\<rparr>"

section \<open>The bound estimator: what it returns\<close>

lemma unat_size_t_less: "unat (w :: size_t) < 18446744073709551616"
  using unsigned_less [of w, where 'a = nat] by simp

text \<open>
  Whatever the two sizes are, the estimate is never below the engine's own bound \<open>r\<close>:
  either it saturates, or it is at least \<open>r + 9\<close>.
\<close>

lemma pad_buffer_size_ge_native_bound:
  "r \<le> internal_compress_pad_buffer_size in_bytes r"
  using unat_size_t_less [of r]
  unfolding internal_compress_pad_buffer_size_def SIZE_MAX_def Let_def
  by (auto simp: word_le_nat_alt word_less_nat_alt unat_word_ariths unat_div)

text \<open>
  Where neither \<open>r + 9\<close> nor \<open>in_bytes * 130\<close> leaves the 64 bits, the estimate is the
  larger of \<open>r + 9\<close> and \<open>in_bytes * 130 div 128\<close>: the second margin has no \<open>+ 100\<close>.
\<close>

lemma pad_buffer_size_without_saturation:
  assumes "unat r + 9 < 2 ^ 64" and "unat in_bytes * 130 < 2 ^ 64"
  shows "unat (internal_compress_pad_buffer_size in_bytes r)
           = max (unat r + 9) (unat in_bytes * 130 div 128)"
  using assms
  unfolding internal_compress_pad_buffer_size_def SIZE_MAX_def Let_def
  by (auto simp: word_le_nat_alt word_less_nat_alt unat_word_ariths unat_div)

text \<open>
  Claim C1. The claim reads the estimate as the larger of \<open>r + 9\<close> and
  \<open>(n * 130) div 128 + 100\<close>. Line 39 tests that 100 can still be added, and no line
  adds it: for 12800 input bytes and an engine bound of 12821 (the sample engine's) the
  function returns 13000, where the claim's formula gives 13100.
\<close>

theorem pad_buffer_size_omits_the_100:
  "internal_compress_pad_buffer_size 12800 12821 = 13000
   \<and> exr_compress_max_buffer_size sample_engine 12800 = 13000
   \<and> max (12821 + 9) ((12800 * 130) div 128 + 100) = (13100 :: size_t)"
  by (simp add: exr_compress_max_buffer_size_def internal_compress_pad_buffer_size_def
      SIZE_MAX_def sample_engine_def)

text \<open>The two saturation tests that work: on \<open>r + 9\<close>, and on sizes near \<open>SIZE_MAX\<close>.\<close>

lemma pad_buffer_size_saturates_on_r:
  "SIZE_MAX - 9 < r \<Longrightarrow> internal_compress_pad_buffer_size in_bytes r = SIZE_MAX"
  by (simp add: internal_compress_pad_buffer_size_def)

lemma mul130_wraps_below:
  fixes x :: nat
  assumes "18374686479671623680 \<le> x" and "x < 18446744073709551616"
  shows "x * 130 mod 18446744073709551616 < x"
proof -
  have "x * 130 = (x * 130 - 129 * 18446744073709551616) + 129 * 18446744073709551616"
    using assms by simp
  then have "x * 130 mod 18446744073709551616
               = (x * 130 - 129 * 18446744073709551616) mod 18446744073709551616"
    by (metis mod_mult_self1)
  also have "\<dots> = x * 130 - 129 * 18446744073709551616"
    using assms by simp
  also have "\<dots> < x"
    using assms by simp
  finally show ?thesis .
qed

lemma pad_buffer_size_saturates_near_max:
  "2 ^ 64 - 2 ^ 56 \<le> unat in_bytes
   \<Longrightarrow> internal_compress_pad_buffer_size in_bytes r = SIZE_MAX"
  using mul130_wraps_below [of "unat in_bytes"] unat_size_t_less [of in_bytes]
  unfolding internal_compress_pad_buffer_size_def SIZE_MAX_def Let_def
  by (auto simp: word_le_nat_alt word_less_nat_alt unat_word_ariths unat_div)

text \<open>
  The test on the product misses a wrap: for \<open>2 ^ 57\<close> input bytes the product
  \<open>2 ^ 57 * 130\<close> wraps to \<open>2 ^ 58\<close>, and whatever bound \<open>r\<close> the engine gave
  (short of saturating \<open>r + 9\<close>), the estimate is the larger of \<open>r + 9\<close> and
  \<open>2 ^ 51\<close>.
\<close>

lemma pad_buffer_size_wrapped_product_any_bound:
  assumes "r \<le> SIZE_MAX - 9"
  shows "internal_compress_pad_buffer_size 144115188075855872 r
           = (if 2251799813685248 > r + 9 then 2251799813685248 else r + 9)"
proof -
  have "\<not> r > SIZE_MAX - 9"
    using assms by (simp add: not_less)
  then show ?thesis
    by (simp add: internal_compress_pad_buffer_size_def SIZE_MAX_def)
qed

text \<open>
  Claim C2. The claim has every step detect its overflow and the estimator return
  \<open>SIZE_MAX\<close> then. The test after the product, \<^verbatim>\<open>extra < in_bytes\<close> on line 35, sees
  a wrapped product only when it wrapped below \<open>in_bytes\<close>. For \<open>in_bytes = 2 ^ 57\<close>
  the product \<open>2 ^ 57 * 130\<close> is \<open>2 ^ 64 + 2 ^ 58\<close>, wraps to \<open>2 ^ 58\<close>, passes the
  test, and with the engine bound \<open>2 ^ 57 + 2 ^ 48\<close> the function returns that bound
  plus 9 and not \<open>SIZE_MAX\<close>.
\<close>

theorem pad_buffer_size_misses_wrapped_product:
  "internal_compress_pad_buffer_size 144115188075855872 144396663052566528
     = 144396663052566537
   \<and> 2 ^ 64 \<le> unat (144115188075855872 :: size_t) * 130
   \<and> (144396663052566537 :: size_t) \<noteq> SIZE_MAX"
  by (simp add: internal_compress_pad_buffer_size_def SIZE_MAX_def)

section \<open>The descriptor loop\<close>

text \<open>
  The loop builds the descriptors of pages 0 to \<open>last_page\<close> when \<open>last_page\<close> is
  below \<open>INT_MAX\<close>, and overflows its counter otherwise.
\<close>

lemma unat_of_nat_size_t: "k < 18446744073709551616 \<Longrightarrow> unat (of_nat k :: size_t) = k"
  by (simp add: unat_of_nat)

lemma unat_of_int_size_t:
  "0 \<le> i \<Longrightarrow> i < 18446744073709551616 \<Longrightarrow> unat (of_int i :: size_t) = nat i"
  using unat_of_nat_size_t [of "nat i"] by simp

lemma out_pages_loop_run:
  assumes "0 \<le> i" and "nat i \<le> unat last_page + 1" and "unat last_page < 2147483647"
  shows "out_pages_loop out avail psize last_page i ps =
           Inr (\<lambda>j. if nat i \<le> j \<and> j \<le> unat last_page
                     then \<lparr>data = out + of_nat j * psize,
                           nbytes = (if j < unat last_page then psize else avail - last_page * psize)\<rparr>
                     else ps j)"
  using assms
proof (induction out avail psize last_page i ps rule: out_pages_loop.induct)
  case (1 out avail psize last_page i ps)
  have ui: "unat (of_int i :: size_t) = nat i"
    using "1.prems" by (intro unat_of_int_size_t) auto
  show ?case
  proof (cases "(of_int i :: size_t) \<le> last_page")
    case True
    then have le: "nat i \<le> unat last_page"
      using ui by (simp add: word_le_nat_alt)
    then have ni: "\<not> INT_MAX \<le> i"
      using "1.prems" by (simp add: INT_MAX_def)
    have oi: "(of_int i :: size_t) = of_nat (nat i)"
      using "1.prems" by simp
    have lt: "((of_int i :: size_t) < last_page) = (nat i < unat last_page)"
      using ui by (simp add: word_less_nat_alt)
    have "out_pages_loop out avail psize last_page i ps =
            out_pages_loop out avail psize last_page (i + 1)
              (ps(nat i := \<lparr>data = out + of_int i * psize,
                    nbytes = (if (of_int i :: size_t) < last_page then psize
                              else avail - last_page * psize)\<rparr>))"
      using True ni by (subst out_pages_loop.simps) (simp add: Let_def)
    also have "\<dots> = Inr (\<lambda>j. if nat (i + 1) \<le> j \<and> j \<le> unat last_page
                     then \<lparr>data = out + of_nat j * psize,
                           nbytes = (if j < unat last_page then psize else avail - last_page * psize)\<rparr>
                     else (ps(nat i := \<lparr>data = out + of_int i * psize,
                    nbytes = (if (of_int i :: size_t) < last_page then psize
                              else avail - last_page * psize)\<rparr>)) j)"
      using True ni le "1.prems" by (intro "1.IH") auto
    also have "\<dots> = Inr (\<lambda>j. if nat i \<le> j \<and> j \<le> unat last_page
                     then \<lparr>data = out + of_nat j * psize,
                           nbytes = (if j < unat last_page then psize else avail - last_page * psize)\<rparr>
                     else ps j)"
    proof -
      have eq: "(of_int i :: size_t) = last_page" if "nat i = unat last_page"
        using that ui by (simp add: word_unat_eq_iff)
      show ?thesis
        using le "1.prems"(1) eq by (auto simp: fun_eq_iff lt)
    qed
    finally show ?thesis .
  next
    case False
    then have "unat last_page < nat i"
      using ui by (simp add: word_le_nat_alt)
    then have "(\<lambda>j. if nat i \<le> j \<and> j \<le> unat last_page
                     then \<lparr>data = out + of_nat j * psize,
                           nbytes = (if j < unat last_page then psize else avail - last_page * psize)\<rparr>
                     else ps j) = ps"
      by (auto simp: fun_eq_iff)
    moreover have "out_pages_loop out avail psize last_page i ps = Inr ps"
      using False by (subst out_pages_loop.simps) simp
    ultimately show ?thesis by simp
  qed
qed

lemma out_pages_loop_overflow:
  assumes "0 \<le> i" and "i \<le> INT_MAX" and "2147483647 \<le> unat last_page"
  shows "out_pages_loop out avail psize last_page i ps = Inl Signed_overflow"
  using assms
proof (induction out avail psize last_page i ps rule: out_pages_loop.induct)
  case (1 out avail psize last_page i ps)
  have ui: "unat (of_int i :: size_t) = nat i"
    using "1.prems" by (intro unat_of_int_size_t) (auto simp: INT_MAX_def)
  have le: "(of_int i :: size_t) \<le> last_page"
    using ui "1.prems" by (simp add: word_le_nat_alt INT_MAX_def)
  show ?case
  proof (cases "INT_MAX \<le> i")
    case True
    then show ?thesis using le by (subst out_pages_loop.simps) (simp add: Let_def)
  next
    case False
    then have "out_pages_loop out avail psize last_page i ps =
            out_pages_loop out avail psize last_page (i + 1)
              (ps(nat i := \<lparr>data = out + of_int i * psize,
                    nbytes = (if (of_int i :: size_t) < last_page then psize
                              else avail - last_page * psize)\<rparr>))"
      using le by (subst out_pages_loop.simps) (simp add: Let_def)
    also have "\<dots> = Inl Signed_overflow"
      using le False "1.prems" by (intro "1.IH") auto
    finally show ?thesis .
  qed
qed

text \<open>\<^verbatim>\<open>exr_compress_buffer_gdeflate\<close> with its local variables named.\<close>

lemma exr_compress_buffer_gdeflate_unfold:
  assumes L: "L = (if level < 0 then (if d < 0 then 4 else d) else level)"
    and c: "c = alloc_gdeflate_compressor eng L"
    and n: "n = (if pc = 0 then 1 else pc)"
  shows "exr_compress_buffer_gdeflate eng d level inp in_bytes out avail pc psize actual_out h =
     (if c \<noteq> NULL then
        (case out_pages_loop out avail psize (n - 1) 0 (\<lambda>i. \<lparr>data = 0, nbytes = 0\<rparr>) of
           Inl f \<Rightarrow> (Crashed f, h, [Alloc_gdeflate_compressor L c])
         | Inr ps \<Rightarrow>
             (case gdeflate_compress eng c inp in_bytes ps n h of
                (outsz, ps1, h1) \<Rightarrow>
                  if outsz \<noteq> 0 then
                    (case compact_loop ps1 n 1 (data (ps1 0) + nbytes (ps1 0))
                            (bytes (if actual_out \<noteq> NULL
                                    then h1\<lparr>cells := (cells h1)(actual_out := outsz)\<rparr>
                                    else h1)) of
                       Inl f \<Rightarrow>
                         (Crashed f,
                          (if actual_out \<noteq> NULL
                           then h1\<lparr>cells := (cells h1)(actual_out := outsz)\<rparr>
                           else h1),
                          [Alloc_gdeflate_compressor L c,
                           Gdeflate_compress c (map ps [0..<unat n]),
                           Free_gdeflate_compressor c])
                     | Inr m \<Rightarrow>
                         (Returned EXR_ERR_SUCCESS,
                          (if actual_out \<noteq> NULL
                           then h1\<lparr>cells := (cells h1)(actual_out := outsz)\<rparr>
                           else h1)\<lparr>bytes := m\<rparr>,
                          [Alloc_gdeflate_compressor L c,
                           Gdeflate_compress c (map ps [0..<unat n]),
                           Free_gdeflate_compressor c]))
                  else (Returned EXR_ERR_OUT_OF_MEMORY, h1,
                        [Alloc_gdeflate_compressor L c,
                         Gdeflate_compress c (map ps [0..<unat n]),
                         Free_gdeflate_compressor c])))
      else (Returned EXR_ERR_OUT_OF_MEMORY, h, [Alloc_gdeflate_compressor L c]))"
  unfolding exr_compress_buffer_gdeflate_def L c n Let_def EXR_DEFAULT_ZLIB_COMPRESS_LEVEL_def
  by (rule refl)

section \<open>The shape of a page-split compression\<close>

lemma level_resolved:
  "(if level < 0 then (if d < 0 then 4 else d) else level)
     = (if 0 \<le> level then level else if 0 \<le> d then d else (4::int))"
  by auto

lemma compact_loop_returns:
  assumes "0 \<le> i" and "i \<le> 2147483647" and "unat n \<le> 2147483647"
  shows "\<exists>m'. compact_loop ps n i dest m = Inr m'"
  using assms
proof (induction ps n i dest m rule: compact_loop.induct)
  case (1 ps n i dest m)
  have ui: "unat (of_int i :: size_t) = nat i"
    using "1.prems" by (intro unat_of_int_size_t) auto
  show ?case
  proof (cases "(of_int i :: size_t) < n")
    case True
    then have "nat i < unat n"
      using ui by (simp add: word_less_nat_alt)
    then have lt: "i < 2147483647"
      using "1.prems" by simp
    then have "\<exists>m'. compact_loop ps n (i + 1) (dest + nbytes (ps (nat i)))
                    (memmove m dest (data (ps (nat i))) (nbytes (ps (nat i)))) = Inr m'"
      using True "1.prems" by (intro "1.IH") (auto simp: INT_MAX_def)
    then show ?thesis
      using True lt by (subst compact_loop.simps) (simp add: Let_def INT_MAX_def)
  next
    case False
    then show ?thesis by (subst compact_loop.simps) simp
  qed
qed

lemma out_pages_loop_Inr_bound:
  assumes "out_pages_loop out avail psize last_page 0 ps = Inr ps'"
  shows "unat last_page < 2147483647"
proof (rule ccontr)
  assume "\<not> unat last_page < 2147483647"
  then have "out_pages_loop out avail psize last_page 0 ps = Inl Signed_overflow"
    by (intro out_pages_loop_overflow) (auto simp: INT_MAX_def)
  with assms show False by simp
qed

lemma page_count_pred:
  assumes "n = (if pc = 0 then 1 else pc)"
  shows "unat (n - 1 :: size_t) = unat n - 1" and "0 < unat n"
  using assms by (auto simp: unat_minus_one unat_gt_0)



lemma gdeflate_run_cases:
  fixes eng d level inp in_bytes out avail pc psize actual_out h
  defines "L \<equiv> (if 0 \<le> level then level else if 0 \<le> d then d else (4::int))"
  defines "c \<equiv> alloc_gdeflate_compressor eng L"
  defines "n \<equiv> (if pc = 0 then 1 else pc)"
  defines "r \<equiv> exr_compress_buffer_gdeflate eng d level inp in_bytes out avail pc psize actual_out h"
  obtains
    (alloc_failed) "c = NULL" "r = (Returned EXR_ERR_OUT_OF_MEMORY, h, [Alloc_gdeflate_compressor L c])"
  | (overflow) f where "c \<noteq> NULL"
      "out_pages_loop out avail psize (n - 1) 0 (\<lambda>i. \<lparr>data = 0, nbytes = 0\<rparr>) = Inl f"
      "r = (Crashed f, h, [Alloc_gdeflate_compressor L c])"
  | (no_output) ps ps1 h1 where "c \<noteq> NULL"
      "out_pages_loop out avail psize (n - 1) 0 (\<lambda>i. \<lparr>data = 0, nbytes = 0\<rparr>) = Inr ps"
      "gdeflate_compress eng c inp in_bytes ps n h = (0, ps1, h1)"
      "r = (Returned EXR_ERR_OUT_OF_MEMORY, h1,
            [Alloc_gdeflate_compressor L c, Gdeflate_compress c (map ps [0..<unat n]),
             Free_gdeflate_compressor c])"
  | (compacted) ps outsz ps1 h1 m where "c \<noteq> NULL"
      "out_pages_loop out avail psize (n - 1) 0 (\<lambda>i. \<lparr>data = 0, nbytes = 0\<rparr>) = Inr ps"
      "gdeflate_compress eng c inp in_bytes ps n h = (outsz, ps1, h1)"
      "outsz \<noteq> 0"
      "compact_loop ps1 n 1 (data (ps1 0) + nbytes (ps1 0)) (bytes h1) = Inr m"
      "r = (Returned EXR_ERR_SUCCESS,
            (if actual_out \<noteq> NULL then h1\<lparr>cells := (cells h1)(actual_out := outsz)\<rparr> else h1)
              \<lparr>bytes := m\<rparr>,
            [Alloc_gdeflate_compressor L c, Gdeflate_compress c (map ps [0..<unat n]),
             Free_gdeflate_compressor c])"
proof -
  have bytes_eq: "bytes (if actual_out \<noteq> NULL then h1\<lparr>cells := (cells h1)(actual_out := outsz)\<rparr> else h1) = bytes h1"
    for h1 :: heap and outsz
    by simp
  note u = exr_compress_buffer_gdeflate_unfold [OF refl refl refl,
      of eng d level inp in_bytes out avail pc psize actual_out h,
      unfolded level_resolved, folded L_def, folded c_def n_def, folded r_def, unfolded bytes_eq]
  show thesis
  proof (cases "c = NULL")
    case True
    then show thesis using u alloc_failed by simp
  next
    case nn: False
    show thesis
    proof (cases "out_pages_loop out avail psize (n - 1) 0 (\<lambda>i. \<lparr>data = 0, nbytes = 0\<rparr>)")
      case (Inl f)
      then show thesis using u nn overflow by simp
    next
      case (Inr ps)
      then have "unat (n - 1) < 2147483647"
        by (rule out_pages_loop_Inr_bound)
      then have nb: "unat n \<le> 2147483647"
        using page_count_pred(1) [OF refl, of pc] by (simp add: n_def)
      obtain outsz ps1 h1 where e: "gdeflate_compress eng c inp in_bytes ps n h = (outsz, ps1, h1)"
        by (cases "gdeflate_compress eng c inp in_bytes ps n h") auto
      show thesis
      proof (cases "outsz = 0")
        case True
        then show thesis using u nn Inr e no_output by simp
      next
        case False
        obtain m where m: "compact_loop ps1 n 1 (data (ps1 0) + nbytes (ps1 0)) (bytes h1) = Inr m"
          using compact_loop_returns [of 1 n ps1] nb by auto
        show thesis using u nn Inr e False m compacted by simp
      qed
    qed
  qed
qed

text \<open>The sample engine's allocators, and its run on a two-page output.\<close>

lemma sample_engine_allocates:
  "alloc_compressor sample_engine l = 4096"
  "alloc_gdeflate_compressor sample_engine l = 4096"
  "alloc_decompressor sample_engine = 4096"
  "alloc_gdeflate_decompressor sample_engine = 4096"
  by (simp_all add: sample_engine_def)

lemma sample_pages_built:
  "\<exists>ps. out_pages_loop 1000 20 8 (2 - 1) 0 (\<lambda>i. \<lparr>data = 0, nbytes = 0\<rparr>) = Inr ps"
  using out_pages_loop_run [of 0 1 1000 20 8 "\<lambda>i. \<lparr>data = 0, nbytes = 0\<rparr>"] by simp

lemma sample_page_split_succeeds:
  "result_of (exr_compress_buffer_gdeflate sample_engine (-1) (-1) 500 5 1000 20 2 8 2000 sample_heap)
     = Returned EXR_ERR_SUCCESS"
proof -
  obtain ps where pages:
    "out_pages_loop 1000 20 8 (2 - 1) 0 (\<lambda>i. \<lparr>data = 0, nbytes = 0\<rparr>) = Inr ps"
    using sample_pages_built by blast
  show ?thesis
    using pages
    by (rule_tac gdeflate_run_cases [where eng = sample_engine and d = "-1" and level = "-1"
          and inp = 500 and in_bytes = 5 and out = 1000 and avail = 20 and pc = 2 and psize = 8
          and actual_out = 2000 and h = sample_heap])
       (simp_all add: result_of_def sample_engine_def NULL_def)
qed

section \<open>Single-stream decompression\<close>

text \<open>
  Claim C3. \<^verbatim>\<open>exr_uncompress_buffer\<close> returns success exactly when the decompressor
  was allocated, the engine reported \<open>LIBDEFLATE_SUCCESS\<close> and the count of input bytes
  it consumed is the whole \<open>in_bytes\<close>; when the engine reported success and consumed
  fewer bytes, the call returns \<open>EXR_ERR_CORRUPT_CHUNK\<close>. (Without a decompressor the
  engine is never run and the call returns \<open>EXR_ERR_OUT_OF_MEMORY\<close>.)
\<close>

theorem uncompress_success_iff_all_input_consumed:
  "(result_of (exr_uncompress_buffer eng inp in_bytes out avail actual_out h)
        = Returned EXR_ERR_SUCCESS
      \<longleftrightarrow> alloc_decompressor eng \<noteq> NULL
          \<and> fst (zlib_decompress_ex eng (alloc_decompressor eng) inp in_bytes out avail actual_out h)
                = LIBDEFLATE_SUCCESS
          \<and> fst (snd (zlib_decompress_ex eng (alloc_decompressor eng) inp in_bytes out avail
                        actual_out h))
                = in_bytes)
   \<and> (alloc_decompressor eng \<noteq> NULL
          \<and> fst (zlib_decompress_ex eng (alloc_decompressor eng) inp in_bytes out avail actual_out h)
                = LIBDEFLATE_SUCCESS
          \<and> fst (snd (zlib_decompress_ex eng (alloc_decompressor eng) inp in_bytes out avail
                        actual_out h))
                < in_bytes
        \<longrightarrow> result_of (exr_uncompress_buffer eng inp in_bytes out avail actual_out h)
              = Returned EXR_ERR_CORRUPT_CHUNK)"
  by (auto simp: exr_uncompress_buffer_def result_of_def Let_def split: prod.splits)

text \<open>
  The sample engine consumes five bytes: six input bytes (one trailing byte) are a
  corrupt chunk, five are a success.
\<close>

theorem uncompress_success_iff_all_input_consumed_witness:
  "alloc_decompressor sample_engine \<noteq> NULL
   \<and> fst (zlib_decompress_ex sample_engine (alloc_decompressor sample_engine) 500 6 1000 64 2000
            sample_heap)
        = LIBDEFLATE_SUCCESS
   \<and> fst (snd (zlib_decompress_ex sample_engine (alloc_decompressor sample_engine) 500 6 1000 64
                 2000 sample_heap))
        < 6
   \<and> result_of (exr_uncompress_buffer sample_engine 500 6 1000 64 2000 sample_heap)
        = Returned EXR_ERR_CORRUPT_CHUNK
   \<and> result_of (exr_uncompress_buffer sample_engine 500 5 1000 64 2000 sample_heap)
        = Returned EXR_ERR_SUCCESS"
  using uncompress_success_iff_all_input_consumed [of sample_engine 500 6 1000 64 2000 sample_heap]
    uncompress_success_iff_all_input_consumed [of sample_engine 500 5 1000 64 2000 sample_heap]
  by (simp add: sample_engine_def NULL_def)

section \<open>The compression level\<close>

text \<open>
  Claim C6. In both compressors the first call to the engine allocates the compressor
  with this level: the requested level when it is not negative, else the configured
  default \<open>d\<close> when that is not negative, else \<open>EXR_DEFAULT_ZLIB_COMPRESS_LEVEL\<close>. A
  call with a requested level that is not negative does not depend on the configured
  default.
\<close>

theorem compression_level_resolution:
  "hd (trace_of (exr_compress_buffer eng d level inp in_bytes out avail actual_out h))
     = Alloc_compressor
         (if 0 \<le> level then level else if 0 \<le> d then d else EXR_DEFAULT_ZLIB_COMPRESS_LEVEL)
         (alloc_compressor eng
           (if 0 \<le> level then level else if 0 \<le> d then d else EXR_DEFAULT_ZLIB_COMPRESS_LEVEL))
   \<and> hd (trace_of (exr_compress_buffer_gdeflate eng d level inp in_bytes out avail pc psize
                      actual_out h))
     = Alloc_gdeflate_compressor
         (if 0 \<le> level then level else if 0 \<le> d then d else EXR_DEFAULT_ZLIB_COMPRESS_LEVEL)
         (alloc_gdeflate_compressor eng
           (if 0 \<le> level then level else if 0 \<le> d then d else EXR_DEFAULT_ZLIB_COMPRESS_LEVEL))
   \<and> (0 \<le> level \<longrightarrow>
        exr_compress_buffer eng d level inp in_bytes out avail actual_out h
          = exr_compress_buffer eng d' level inp in_bytes out avail actual_out h
        \<and> exr_compress_buffer_gdeflate eng d level inp in_bytes out avail pc psize actual_out h
          = exr_compress_buffer_gdeflate eng d' level inp in_bytes out avail pc psize actual_out h)"
proof -
  have a: "hd (trace_of (exr_compress_buffer eng d level inp in_bytes out avail actual_out h))
     = Alloc_compressor
         (if 0 \<le> level then level else if 0 \<le> d then d else EXR_DEFAULT_ZLIB_COMPRESS_LEVEL)
         (alloc_compressor eng
           (if 0 \<le> level then level else if 0 \<le> d then d else EXR_DEFAULT_ZLIB_COMPRESS_LEVEL))"
    by (auto simp: exr_compress_buffer_def trace_of_def Let_def split: prod.splits)
  have b: "hd (trace_of (exr_compress_buffer_gdeflate eng d level inp in_bytes out avail pc psize
                          actual_out h))
     = Alloc_gdeflate_compressor
         (if 0 \<le> level then level else if 0 \<le> d then d else EXR_DEFAULT_ZLIB_COMPRESS_LEVEL)
         (alloc_gdeflate_compressor eng
           (if 0 \<le> level then level else if 0 \<le> d then d else EXR_DEFAULT_ZLIB_COMPRESS_LEVEL))"
    unfolding EXR_DEFAULT_ZLIB_COMPRESS_LEVEL_def
    by (rule gdeflate_run_cases [where eng = eng and d = d and level = level and inp = inp
          and in_bytes = in_bytes and out = out and avail = avail and pc = pc and psize = psize
          and actual_out = actual_out and h = h])
       (simp_all add: trace_of_def)
  have c: "exr_compress_buffer eng d level inp in_bytes out avail actual_out h
          = exr_compress_buffer eng d' level inp in_bytes out avail actual_out h" if "0 \<le> level"
    using that by (simp add: exr_compress_buffer_def)
  have e: "exr_compress_buffer_gdeflate eng d level inp in_bytes out avail pc psize actual_out h
          = exr_compress_buffer_gdeflate eng d' level inp in_bytes out avail pc psize actual_out h"
    if "0 \<le> level"
  proof -
    from that have nl: "(level < 0) = False" by simp
    show ?thesis
      unfolding exr_compress_buffer_gdeflate_def nl if_False ..
  qed
  show ?thesis using a b c e by blast
qed

text \<open>
  Level 3 with defaults 7 and -1 behind it; no level with default 7; no level and no
  default.
\<close>

theorem compression_level_resolution_witness:
  "(0::int) \<le> 3
   \<and> exr_compress_buffer sample_engine 7 3 500 5 1000 20 2000 sample_heap
       = exr_compress_buffer sample_engine (-1) 3 500 5 1000 20 2000 sample_heap
   \<and> exr_compress_buffer_gdeflate sample_engine 7 3 500 5 1000 20 2 8 2000 sample_heap
       = exr_compress_buffer_gdeflate sample_engine (-1) 3 500 5 1000 20 2 8 2000 sample_heap
   \<and> hd (trace_of (exr_compress_buffer sample_engine 7 3 500 5 1000 20 2000 sample_heap))
       = Alloc_compressor 3 4096
   \<and> hd (trace_of (exr_compress_buffer sample_engine 7 (-1) 500 5 1000 20 2000 sample_heap))
       = Alloc_compressor 7 4096
   \<and> hd (trace_of (exr_compress_buffer_gdeflate sample_engine 7 (-1) 500 5 1000 20 2 8 2000
                      sample_heap))
       = Alloc_gdeflate_compressor 7 4096
   \<and> hd (trace_of (exr_compress_buffer_gdeflate sample_engine (-1) (-2) 500 5 1000 20 2 8 2000
                      sample_heap))
       = Alloc_gdeflate_compressor 4 4096"
proof -
  note at_3 = compression_level_resolution [where eng = sample_engine and d = 7 and d' = "-1"
      and level = 3 and inp = 500 and in_bytes = 5 and out = 1000 and avail = 20
      and actual_out = 2000 and h = sample_heap and pc = 2 and psize = 8]
  note at_default = compression_level_resolution [where eng = sample_engine and d = 7
      and d' = "-1" and level = "-1" and inp = 500 and in_bytes = 5 and out = 1000 and avail = 20
      and actual_out = 2000 and h = sample_heap and pc = 2 and psize = 8]
  note at_unset = compression_level_resolution [where eng = sample_engine and d = "-1"
      and d' = "-1" and level = "-2" and inp = 500 and in_bytes = 5 and out = 1000 and avail = 20
      and actual_out = 2000 and h = sample_heap and pc = 2 and psize = 8]
  have requested: "(0::int) \<le> 3"
    by simp
  have same: "exr_compress_buffer sample_engine 7 3 500 5 1000 20 2000 sample_heap
       = exr_compress_buffer sample_engine (-1) 3 500 5 1000 20 2000 sample_heap
     \<and> exr_compress_buffer_gdeflate sample_engine 7 3 500 5 1000 20 2 8 2000 sample_heap
       = exr_compress_buffer_gdeflate sample_engine (-1) 3 500 5 1000 20 2 8 2000 sample_heap"
    using at_3 requested by blast
  have l3: "hd (trace_of (exr_compress_buffer sample_engine 7 3 500 5 1000 20 2000 sample_heap))
       = Alloc_compressor 3 4096"
    using at_3 [THEN conjunct1] by (simp add: sample_engine_allocates)
  have l7: "hd (trace_of (exr_compress_buffer sample_engine 7 (-1) 500 5 1000 20 2000 sample_heap))
       = Alloc_compressor 7 4096
     \<and> hd (trace_of (exr_compress_buffer_gdeflate sample_engine 7 (-1) 500 5 1000 20 2 8 2000
                      sample_heap))
       = Alloc_gdeflate_compressor 7 4096"
    using at_default by (simp add: sample_engine_allocates)
  have l4: "hd (trace_of (exr_compress_buffer_gdeflate sample_engine (-1) (-2) 500 5 1000 20 2 8 2000
                      sample_heap))
       = Alloc_gdeflate_compressor 4 4096"
    using at_unset by (simp add: sample_engine_allocates EXR_DEFAULT_ZLIB_COMPRESS_LEVEL_def)
  show ?thesis
    using requested same l3 l7 l4 by blast
qed

section \<open>What the compressors return\<close>

text \<open>
  Claim C7. Once the compressor is allocated, \<^verbatim>\<open>exr_compress_buffer\<close> returns
  \<open>EXR_ERR_OUT_OF_MEMORY\<close> when the engine's compress call returns size zero and
  \<open>EXR_ERR_SUCCESS\<close> when it returns any other size. So does
  \<^verbatim>\<open>exr_compress_buffer_gdeflate\<close>, once its compressor is allocated and its descriptor
  array \<open>ps\<close> is built, for the size that the engine's page-split compress call returns
  on that array.
\<close>

theorem zero_output_is_out_of_memory:
  assumes L: "L = (if 0 \<le> level then level else if 0 \<le> d then d
                  else EXR_DEFAULT_ZLIB_COMPRESS_LEVEL)"
    and n: "n = (if pc = 0 then 1 else pc)"
  shows
  "(alloc_compressor eng L \<noteq> NULL \<longrightarrow>
      result_of (exr_compress_buffer eng d level inp in_bytes out avail actual_out h)
        = Returned (if fst (zlib_compress eng (alloc_compressor eng L) inp in_bytes out avail h) = 0
                    then EXR_ERR_OUT_OF_MEMORY else EXR_ERR_SUCCESS))
   \<and> (alloc_gdeflate_compressor eng L \<noteq> NULL
        \<and> out_pages_loop out avail psize (n - 1) 0 (\<lambda>i. \<lparr>data = 0, nbytes = 0\<rparr>) = Inr ps \<longrightarrow>
      result_of (exr_compress_buffer_gdeflate eng d level inp in_bytes out avail pc psize
                   actual_out h)
        = Returned (if fst (gdeflate_compress eng (alloc_gdeflate_compressor eng L) inp in_bytes
                              ps n h) = 0
                    then EXR_ERR_OUT_OF_MEMORY else EXR_ERR_SUCCESS))"
proof -
  have a: "result_of (exr_compress_buffer eng d level inp in_bytes out avail actual_out h)
        = Returned (if fst (zlib_compress eng (alloc_compressor eng L) inp in_bytes out avail h) = 0
                    then EXR_ERR_OUT_OF_MEMORY else EXR_ERR_SUCCESS)"
    if "alloc_compressor eng L \<noteq> NULL"
    using that unfolding L
    by (auto simp: exr_compress_buffer_def result_of_def Let_def split: prod.splits)
  have b: "result_of (exr_compress_buffer_gdeflate eng d level inp in_bytes out avail pc psize
                        actual_out h)
        = Returned (if fst (gdeflate_compress eng (alloc_gdeflate_compressor eng L) inp in_bytes
                              ps n h) = 0
                    then EXR_ERR_OUT_OF_MEMORY else EXR_ERR_SUCCESS)"
    if "alloc_gdeflate_compressor eng L \<noteq> NULL"
      and "out_pages_loop out avail psize (n - 1) 0 (\<lambda>i. \<lparr>data = 0, nbytes = 0\<rparr>) = Inr ps"
    using that unfolding L n EXR_DEFAULT_ZLIB_COMPRESS_LEVEL_def
    by (rule_tac gdeflate_run_cases [where eng = eng and d = d and level = level and inp = inp
          and in_bytes = in_bytes and out = out and avail = avail and pc = pc and psize = psize
          and actual_out = actual_out and h = h])
       (simp_all add: result_of_def)
  show ?thesis using a b by blast
qed

text \<open>The sample engine returns sizes 3 and 5: both calls succeed.\<close>

theorem zero_output_is_out_of_memory_witness:
  "alloc_compressor sample_engine 4 \<noteq> NULL
   \<and> alloc_gdeflate_compressor sample_engine 4 \<noteq> NULL
   \<and> (\<exists>ps. out_pages_loop 1000 20 8 (2 - 1) 0 (\<lambda>i. \<lparr>data = 0, nbytes = 0\<rparr>) = Inr ps)
   \<and> result_of (exr_compress_buffer sample_engine (-1) (-1) 500 100 1000 20 2000 sample_heap)
       = Returned EXR_ERR_SUCCESS
   \<and> result_of (exr_compress_buffer_gdeflate sample_engine (-1) (-1) 500 100 1000 20 2 8 2000
                  sample_heap)
       = Returned EXR_ERR_SUCCESS"
proof -
  obtain ps where pages:
    "out_pages_loop 1000 20 8 (2 - 1) 0 (\<lambda>i. \<lparr>data = 0, nbytes = 0\<rparr>) = Inr ps"
    using sample_pages_built by blast
  have alloc: "alloc_compressor sample_engine 4 \<noteq> NULL"
    "alloc_gdeflate_compressor sample_engine 4 \<noteq> NULL"
    by (simp_all add: sample_engine_def NULL_def)
  show ?thesis
    using zero_output_is_out_of_memory [where L = 4 and level = "-1" and d = "-1" and n = 2
        and pc = 2 and eng = sample_engine and inp = 500 and in_bytes = 100 and out = 1000
        and avail = 20 and actual_out = 2000 and h = sample_heap and psize = 8 and ps = ps]
      pages alloc
    by (simp add: EXR_DEFAULT_ZLIB_COMPRESS_LEVEL_def sample_engine_def)
qed

section \<open>The optional out-parameter\<close>

text \<open>
  The two compressors test \<^verbatim>\<open>actual_out\<close> before they store through it: a call with
  a null \<^verbatim>\<open>actual_out\<close> has the result code and the output bytes of the call with a
  pointer.
\<close>

lemma actual_out_optional_when_compressing:
  "result_of (exr_compress_buffer eng d level inp in_bytes out avail NULL h)
     = result_of (exr_compress_buffer eng d level inp in_bytes out avail actual_out h)
   \<and> bytes (heap_of (exr_compress_buffer eng d level inp in_bytes out avail NULL h))
     = bytes (heap_of (exr_compress_buffer eng d level inp in_bytes out avail actual_out h))
   \<and> result_of (exr_compress_buffer_gdeflate eng d level inp in_bytes out avail pc psize NULL h)
     = result_of (exr_compress_buffer_gdeflate eng d level inp in_bytes out avail pc psize
                    actual_out h)
   \<and> bytes (heap_of (exr_compress_buffer_gdeflate eng d level inp in_bytes out avail pc psize
                       NULL h))
     = bytes (heap_of (exr_compress_buffer_gdeflate eng d level inp in_bytes out avail pc psize
                         actual_out h))"
proof -
  have a: "result_of (exr_compress_buffer eng d level inp in_bytes out avail NULL h)
     = result_of (exr_compress_buffer eng d level inp in_bytes out avail actual_out h)
   \<and> bytes (heap_of (exr_compress_buffer eng d level inp in_bytes out avail NULL h))
     = bytes (heap_of (exr_compress_buffer eng d level inp in_bytes out avail actual_out h))"
    by (auto simp: exr_compress_buffer_def result_of_def heap_of_def Let_def split: prod.splits)
  have b: "result_of (exr_compress_buffer_gdeflate eng d level inp in_bytes out avail pc psize
                        NULL h)
     = result_of (exr_compress_buffer_gdeflate eng d level inp in_bytes out avail pc psize
                    actual_out h)
   \<and> bytes (heap_of (exr_compress_buffer_gdeflate eng d level inp in_bytes out avail pc psize
                       NULL h))
     = bytes (heap_of (exr_compress_buffer_gdeflate eng d level inp in_bytes out avail pc psize
                         actual_out h))"
    apply (rule gdeflate_run_cases [where eng = eng and d = d and level = level and inp = inp
          and in_bytes = in_bytes and out = out and avail = avail and pc = pc and psize = psize
          and actual_out = NULL and h = h])
    apply (rule gdeflate_run_cases [where eng = eng and d = d and level = level and inp = inp
          and in_bytes = in_bytes and out = out and avail = avail and pc = pc and psize = psize
          and actual_out = actual_out and h = h];
           simp add: result_of_def heap_of_def)+
    done
  show ?thesis using a b by blast
qed

text \<open>
  Claim C8. The claim has all four operations leave a null \<^verbatim>\<open>actual_out\<close> alone.
  \<^verbatim>\<open>exr_uncompress_buffer_gdeflate\<close> stores \<^verbatim>\<open>out_bytes_avail\<close> through
  \<^verbatim>\<open>actual_out\<close> on line 223 without the test its siblings make: once the decompressor
  is allocated, a call with a null \<^verbatim>\<open>actual_out\<close> writes through the null pointer and
  does not return.
\<close>

theorem gdeflate_uncompress_writes_through_null:
  "alloc_gdeflate_decompressor eng \<noteq> NULL \<Longrightarrow>
   exr_uncompress_buffer_gdeflate eng inp in_bytes out avail NULL h
     = (Crashed Null_dereference, h,
        [Alloc_gdeflate_decompressor (alloc_gdeflate_decompressor eng)])"
  by (simp add: exr_uncompress_buffer_gdeflate_def)

theorem gdeflate_uncompress_writes_through_null_witness:
  "alloc_gdeflate_decompressor sample_engine \<noteq> NULL
   \<and> result_of (exr_uncompress_buffer_gdeflate sample_engine 500 5 1000 64 NULL sample_heap)
       = Crashed Null_dereference"
proof -
  have a: "alloc_gdeflate_decompressor sample_engine \<noteq> NULL"
    by (simp add: sample_engine_def NULL_def)
  show ?thesis
    using gdeflate_uncompress_writes_through_null [OF a, of 500 5 1000 64 sample_heap] a
    by (simp add: result_of_def)
qed

section \<open>Contexts are released\<close>

text \<open>
  Claim C9. Every call of the four operations that returns has released the context it
  allocated: the trace of its allocator and release calls leaves no context held. The
  two single-stream operations always return. (A call that does not return, because it
  wrote through a null pointer or overflowed its loop counter, is outside the claim.)
\<close>

theorem contexts_released_on_return:
  "held (trace_of (exr_compress_buffer eng d level inp in_bytes out avail actual_out h)) = []
   \<and> (\<exists>r. result_of (exr_compress_buffer eng d level inp in_bytes out avail actual_out h)
              = Returned r)
   \<and> held (trace_of (exr_uncompress_buffer eng inp in_bytes out avail actual_out h)) = []
   \<and> (\<exists>r. result_of (exr_uncompress_buffer eng inp in_bytes out avail actual_out h)
              = Returned r)
   \<and> (\<forall>r. result_of (exr_compress_buffer_gdeflate eng d level inp in_bytes out avail pc psize
                         actual_out h)
              = Returned r
           \<longrightarrow> held (trace_of (exr_compress_buffer_gdeflate eng d level inp in_bytes out avail pc
                                 psize actual_out h)) = [])
   \<and> (\<forall>r. result_of (exr_uncompress_buffer_gdeflate eng inp in_bytes out avail actual_out h)
              = Returned r
           \<longrightarrow> held (trace_of (exr_uncompress_buffer_gdeflate eng inp in_bytes out avail
                                 actual_out h)) = [])"
proof -
  have a: "held (trace_of (exr_compress_buffer eng d level inp in_bytes out avail actual_out h)) = []"
    by (auto simp: exr_compress_buffer_def trace_of_def held_def Let_def split: prod.splits)
  have a': "\<exists>r. result_of (exr_compress_buffer eng d level inp in_bytes out avail actual_out h)
              = Returned r"
    by (auto simp: exr_compress_buffer_def result_of_def Let_def split: prod.splits)
  have b: "held (trace_of (exr_uncompress_buffer eng inp in_bytes out avail actual_out h)) = []"
    by (auto simp: exr_uncompress_buffer_def trace_of_def held_def Let_def split: prod.splits)
  have b': "\<exists>r. result_of (exr_uncompress_buffer eng inp in_bytes out avail actual_out h)
              = Returned r"
    by (auto simp: exr_uncompress_buffer_def result_of_def Let_def split: prod.splits)
  have c: "held (trace_of (exr_compress_buffer_gdeflate eng d level inp in_bytes out avail pc psize
                             actual_out h)) = []"
    if "result_of (exr_compress_buffer_gdeflate eng d level inp in_bytes out avail pc psize
                     actual_out h)
              = Returned r" for r
    using that
    by (rule_tac gdeflate_run_cases [where eng = eng and d = d and level = level and inp = inp
          and in_bytes = in_bytes and out = out and avail = avail and pc = pc and psize = psize
          and actual_out = actual_out and h = h])
       (simp_all add: result_of_def trace_of_def held_def)
  have e: "held (trace_of (exr_uncompress_buffer_gdeflate eng inp in_bytes out avail actual_out h))
             = []"
    if "result_of (exr_uncompress_buffer_gdeflate eng inp in_bytes out avail actual_out h)
              = Returned r" for r
    using that
    by (auto simp: exr_uncompress_buffer_gdeflate_def result_of_def trace_of_def held_def Let_def
        split: prod.splits if_splits)
  show ?thesis using a a' b b' c e by blast
qed

theorem contexts_released_on_return_witness:
  "result_of (exr_compress_buffer_gdeflate sample_engine (-1) (-1) 500 5 1000 20 2 8 2000
                sample_heap)
       = Returned EXR_ERR_SUCCESS
   \<and> held (trace_of (exr_compress_buffer_gdeflate sample_engine (-1) (-1) 500 5 1000 20 2 8 2000
                        sample_heap)) = []
   \<and> result_of (exr_uncompress_buffer_gdeflate sample_engine 500 5 1000 20 2000 sample_heap)
       = Returned EXR_ERR_SUCCESS
   \<and> held (trace_of (exr_uncompress_buffer_gdeflate sample_engine 500 5 1000 20 2000
                        sample_heap)) = []"
proof -
  have r2: "result_of (exr_uncompress_buffer_gdeflate sample_engine 500 5 1000 20 2000 sample_heap)
       = Returned EXR_ERR_SUCCESS"
    by (simp add: exr_uncompress_buffer_gdeflate_def result_of_def sample_engine_def NULL_def)
  show ?thesis
    using contexts_released_on_return [where eng = sample_engine and d = "-1" and level = "-1"
        and inp = 500 and in_bytes = 5 and out = 1000 and avail = 20 and actual_out = 2000
        and h = sample_heap and pc = 2 and psize = 8] sample_page_split_succeeds r2
    by blast
qed

section \<open>The page descriptors\<close>

lemma out_pages_built:
  assumes n: "n = (if pc = 0 then 1 else pc)" and range: "unat n \<le> 2147483647"
  shows "out_pages_loop out avail psize (n - 1) 0 ps0 =
           Inr (\<lambda>j. if j < unat n
                     then \<lparr>data = out + of_nat j * psize,
                           nbytes = (if j < unat n - 1 then psize else avail - (n - 1) * psize)\<rparr>
                     else ps0 j)"
proof -
  have p: "unat (n - 1) = unat n - 1" "0 < unat n"
    using page_count_pred [OF n] by auto
  have iff: "(j \<le> unat n - 1) = (j < unat n)" for j
    using p by auto
  have "(\<lambda>j. if nat 0 \<le> j \<and> j \<le> unat (n - 1)
                then \<lparr>data = out + of_nat j * psize,
                      nbytes = (if j < unat (n - 1) then psize else avail - (n - 1) * psize)\<rparr>
                else ps0 j)
        = (\<lambda>j. if j < unat n
                then \<lparr>data = out + of_nat j * psize,
                      nbytes = (if j < unat n - 1 then psize else avail - (n - 1) * psize)\<rparr>
                else ps0 j)"
    using p by (auto simp: fun_eq_iff)
  then show ?thesis
    using out_pages_loop_run [of 0 "n - 1" out avail psize ps0] range p
    by simp
qed

lemma out_pages_Inr_range:
  assumes n: "n = (if pc = 0 then 1 else pc)"
    and "out_pages_loop out avail psize (n - 1) 0 ps0 = Inr ps"
  shows "unat n \<le> 2147483647"
  using out_pages_loop_Inr_bound [OF assms(2)] page_count_pred [OF n] by simp

text \<open>
  With the compressor allocated and the page count within the range of the loop counter,
  the engine is handed the descriptors the loop built.
\<close>

lemma built_descriptors_handed:
  assumes L: "L = (if 0 \<le> level then level else if 0 \<le> d then d
                  else EXR_DEFAULT_ZLIB_COMPRESS_LEVEL)"
    and n: "n = (if pc = 0 then 1 else pc)"
    and alloc: "alloc_gdeflate_compressor eng L \<noteq> NULL"
    and range: "unat n \<le> 2147483647"
  shows "Gdeflate_compress (alloc_gdeflate_compressor eng L)
           (map (\<lambda>j. if j < unat n
                     then \<lparr>data = out + of_nat j * psize,
                           nbytes = (if j < unat n - 1 then psize else avail - (n - 1) * psize)\<rparr>
                     else \<lparr>data = 0, nbytes = 0\<rparr>) [0..<unat n])
         \<in> set (trace_of (exr_compress_buffer_gdeflate eng d level inp in_bytes out avail
                             pc psize actual_out h))"
proof -
  have built: "out_pages_loop out avail psize (n - 1) 0 (\<lambda>i. \<lparr>data = 0, nbytes = 0\<rparr>)
     = Inr (\<lambda>j. if j < unat n
                then \<lparr>data = out + of_nat j * psize,
                      nbytes = (if j < unat n - 1 then psize else avail - (n - 1) * psize)\<rparr>
                else \<lparr>data = 0, nbytes = 0\<rparr>)"
    using out_pages_built [OF n range] .
  show ?thesis
    using alloc built unfolding L n EXR_DEFAULT_ZLIB_COMPRESS_LEVEL_def
    by (rule_tac gdeflate_run_cases [where eng = eng and d = d and level = level and inp = inp
          and in_bytes = in_bytes and out = out and avail = avail and pc = pc and psize = psize
          and actual_out = actual_out and h = h])
       (simp_all add: trace_of_def)
qed

text \<open>Conversely, descriptors that were handed to the engine are the ones the loop built.\<close>

lemma handed_descriptors:
  assumes n: "n = (if pc = 0 then 1 else pc)"
    and handed: "Gdeflate_compress c ds
                   \<in> set (trace_of (exr_compress_buffer_gdeflate eng d level inp in_bytes out avail
                                       pc psize actual_out h))"
  shows "unat n \<le> 2147483647
         \<and> ds = map (\<lambda>j. \<lparr>data = out + of_nat j * psize,
                           nbytes = (if j < unat n - 1 then psize else avail - (n - 1) * psize)\<rparr>)
                   [0..<unat n]"
proof -
  have *: "unat n \<le> 2147483647
         \<and> map ps [0..<unat n] = map (\<lambda>j. \<lparr>data = out + of_nat j * psize,
                           nbytes = (if j < unat n - 1 then psize else avail - (n - 1) * psize)\<rparr>)
                   [0..<unat n]"
    if b: "out_pages_loop out avail psize (n - 1) 0 (\<lambda>i. \<lparr>data = 0, nbytes = 0\<rparr>) = Inr ps" for ps
  proof -
    have range: "unat n \<le> 2147483647"
      using out_pages_Inr_range [OF n b] .
    have "ps = (\<lambda>j. if j < unat n
                     then \<lparr>data = out + of_nat j * psize,
                           nbytes = (if j < unat n - 1 then psize else avail - (n - 1) * psize)\<rparr>
                     else \<lparr>data = 0, nbytes = 0\<rparr>)"
      using out_pages_built [OF n range, of out avail psize "\<lambda>i. \<lparr>data = 0, nbytes = 0\<rparr>"] b
      by simp
    then show ?thesis using range by simp
  qed
  show ?thesis
    using handed * unfolding n
    by (rule_tac gdeflate_run_cases [where eng = eng and d = d and level = level and inp = inp
          and in_bytes = in_bytes and out = out and avail = avail and pc = pc and psize = psize
          and actual_out = actual_out and h = h])
       (simp_all add: trace_of_def)
qed

text \<open>
  For a page count up to \<open>INT_MAX\<close> (a page count of zero counting as one) and with
  the compressor allocated, the engine is handed \<open>n\<close> descriptors, descriptor \<open>i\<close>
  with data pointer \<open>out + i * psize\<close> and with capacity \<open>psize\<close> for \<open>i < n - 1\<close>
  and \<open>avail - (n - 1) * psize\<close> for the last (in 64-bit arithmetic); for a page count
  of zero that is the one descriptor of the whole output.
\<close>

lemma page_descriptors_within_int_range:
  assumes L: "L = (if 0 \<le> level then level else if 0 \<le> d then d
                  else EXR_DEFAULT_ZLIB_COMPRESS_LEVEL)"
    and n: "n = (if pc = 0 then 1 else pc)"
    and alloc: "alloc_gdeflate_compressor eng L \<noteq> NULL"
    and range: "unat n \<le> 2147483647"
  shows "\<exists>ds. Gdeflate_compress (alloc_gdeflate_compressor eng L) ds
                \<in> set (trace_of (exr_compress_buffer_gdeflate eng d level inp in_bytes out avail
                                    pc psize actual_out h))
            \<and> length ds = unat n
            \<and> (\<forall>i<unat n. ds ! i =
                  \<lparr>data = out + of_nat i * psize,
                   nbytes = (if i < unat n - 1 then psize else avail - (n - 1) * psize)\<rparr>)
            \<and> (pc = 0 \<longrightarrow> ds = [\<lparr>data = out, nbytes = avail\<rparr>])"
proof -
  let ?ps = "\<lambda>j. if j < unat n
                     then \<lparr>data = out + of_nat j * psize,
                           nbytes = (if j < unat n - 1 then psize else avail - (n - 1) * psize)\<rparr>
                     else \<lparr>data = 0, nbytes = 0\<rparr>"
  let ?ds = "map ?ps [0..<unat n]"
  have ev: "Gdeflate_compress (alloc_gdeflate_compressor eng L) ?ds
                \<in> set (trace_of (exr_compress_buffer_gdeflate eng d level inp in_bytes out avail
                                    pc psize actual_out h))"
    using built_descriptors_handed [OF L n alloc range] .
  have len: "length ?ds = unat n" by simp
  have el: "\<forall>i<unat n. ?ds ! i =
                  \<lparr>data = out + of_nat i * psize,
                   nbytes = (if i < unat n - 1 then psize else avail - (n - 1) * psize)\<rparr>"
    by simp
  have one: "?ds = [\<lparr>data = out, nbytes = avail\<rparr>]" if "pc = 0"
    using that n by simp
  show ?thesis
  proof (rule exI [of _ ?ds], intro conjI)
    show "Gdeflate_compress (alloc_gdeflate_compressor eng L) ?ds
                \<in> set (trace_of (exr_compress_buffer_gdeflate eng d level inp in_bytes out avail
                                    pc psize actual_out h))"
      by (rule ev)
    show "length ?ds = unat n"
      by (rule len)
    show "\<forall>i<unat n. ?ds ! i =
                  \<lparr>data = out + of_nat i * psize,
                   nbytes = (if i < unat n - 1 then psize else avail - (n - 1) * psize)\<rparr>"
      by (rule el)
    show "pc = 0 \<longrightarrow> ?ds = [\<lparr>data = out, nbytes = avail\<rparr>]"
      by (rule impI) (rule one)
  qed
qed

text \<open>
  Claim C4. The claim gives every page index below the page count its descriptor, for
  every page count. The counter of the loop on line 176 is an \<^verbatim>\<open>int\<close>, the bound
  \<^verbatim>\<open>last_page\<close> a \<^verbatim>\<open>size_t\<close>. With \<open>2 ^ 31 + 1\<close> pages the bound is \<open>2 ^ 31\<close>:
  at \<open>i = INT_MAX\<close> the test \<^verbatim>\<open>i <= last_page\<close> still holds, the body writes the
  descriptor of index \<open>2 ^ 31 - 1\<close>, and \<^verbatim>\<open>++i\<close> overflows the \<^verbatim>\<open>int\<close>, which is
  undefined; the descriptor of the last page, index \<open>2 ^ 31\<close>, has not been written.
  (Where the overflow wraps, the counter converts to \<open>2 ^ 64 - 2 ^ 31\<close>, the test
  fails, and the loop ends with that descriptor unwritten.)
\<close>

theorem descriptor_counter_overflows_before_last_page:
  "(of_int INT_MAX :: size_t) \<le> 2147483649 - 1
   \<and> out_pages_loop out avail psize (2147483649 - 1) 0 ps = Inl Signed_overflow"
proof
  show "(of_int INT_MAX :: size_t) \<le> 2147483649 - 1"
    by (simp add: INT_MAX_def)
  show "out_pages_loop out avail psize (2147483649 - 1) 0 ps = Inl Signed_overflow"
    by (rule out_pages_loop_overflow) (simp_all add: INT_MAX_def)
qed

text \<open>
  The capacity of the last page is the 64-bit difference \<open>avail - (n - 1) * psize\<close>,
  computed without a test: in descriptors handed to the engine it has wrapped whenever
  the output capacity is below \<open>(n - 1) * psize\<close>.
\<close>

lemma handed_last_page_capacity:
  assumes n: "n = (if pc = 0 then 1 else pc)"
    and handed: "Gdeflate_compress c ds
                   \<in> set (trace_of (exr_compress_buffer_gdeflate eng d level inp in_bytes out avail
                                       pc psize actual_out h))"
    and short: "avail < (n - 1) * psize"
  shows "length ds = unat n
         \<and> nbytes (last ds) = avail - (n - 1) * psize
         \<and> unat (nbytes (last ds)) = 2 ^ 64 - (unat ((n - 1) * psize) - unat avail)
         \<and> avail < nbytes (last ds)"
proof -
  have pos: "0 < unat n"
    using page_count_pred [OF n] by simp
  have ds: "ds = map (\<lambda>j. \<lparr>data = out + of_nat j * psize,
                           nbytes = (if j < unat n - 1 then psize else avail - (n - 1) * psize)\<rparr>)
                   [0..<unat n]"
    using handed_descriptors [OF n handed] by simp
  have len: "length ds = unat n"
    by (simp add: ds)
  have "last ds = \<lparr>data = out + of_nat (unat n - 1) * psize, nbytes = avail - (n - 1) * psize\<rparr>"
    using pos by (simp add: ds last_map)
  then have cap: "nbytes (last ds) = avail - (n - 1) * psize"
    by simp
  have lt: "unat avail < unat ((n - 1) * psize)"
    using short by (simp add: word_less_nat_alt)
  have un: "unat (avail - (n - 1) * psize) = unat avail + 2 ^ 64 - unat ((n - 1) * psize)"
    using lt by (simp add: unat_sub_if_size word_size)
  have b: "unat ((n - 1) * psize) < 2 ^ 64"
    using unat_size_t_less [of "(n - 1) * psize"] by simp
  have big: "unat avail < unat (avail - (n - 1) * psize)"
    using un lt b by simp
  show ?thesis
    using len cap un lt b big by (simp add: word_less_nat_alt)
qed


text \<open>
  Claim C10. Take a call whose output capacity is below \<open>(n - 1) * psize\<close> (the
  product as the code computes it, in 64 bits). Whatever descriptors the call hands to
  the engine, the capacity of the last one is the wrapped difference
  \<open>2 ^ 64 - ((n - 1) * psize - avail)\<close>, more than the whole output buffer holds; and
  the call does hand descriptors to the engine once the compressor is allocated and the
  page count is within the range of the loop counter. No line of the function tests the
  capacity against the page geometry.
\<close>

theorem last_page_capacity_wraps:
  assumes L: "L = (if 0 \<le> level then level else if 0 \<le> d then d
                  else EXR_DEFAULT_ZLIB_COMPRESS_LEVEL)"
    and n: "n = (if pc = 0 then 1 else pc)"
    and short: "avail < (n - 1) * psize"
  shows "(\<forall>c ds. Gdeflate_compress c ds
                   \<in> set (trace_of (exr_compress_buffer_gdeflate eng d level inp in_bytes out avail
                                       pc psize actual_out h))
            \<longrightarrow> length ds = unat n
                \<and> nbytes (last ds) = avail - (n - 1) * psize
                \<and> unat (nbytes (last ds)) = 2 ^ 64 - (unat ((n - 1) * psize) - unat avail)
                \<and> avail < nbytes (last ds))
         \<and> (alloc_gdeflate_compressor eng L \<noteq> NULL \<and> unat n \<le> 2147483647
            \<longrightarrow> (\<exists>ds. Gdeflate_compress (alloc_gdeflate_compressor eng L) ds
                        \<in> set (trace_of (exr_compress_buffer_gdeflate eng d level inp in_bytes out
                                            avail pc psize actual_out h))))"
proof (intro conjI allI impI)
  fix c ds
  assume handed: "Gdeflate_compress c ds
                   \<in> set (trace_of (exr_compress_buffer_gdeflate eng d level inp in_bytes out avail
                                       pc psize actual_out h))"
  note w = handed_last_page_capacity [OF n handed short]
  show "length ds = unat n"
    using w by (rule conjunct1)
  show "nbytes (last ds) = avail - (n - 1) * psize"
    using w by simp
  show "unat (nbytes (last ds)) = 2 ^ 64 - (unat ((n - 1) * psize) - unat avail)"
    using w by (elim conjE)
  show "avail < nbytes (last ds)"
    using w by (elim conjE)
next
  assume a: "alloc_gdeflate_compressor eng L \<noteq> NULL \<and> unat n \<le> 2147483647"
  show "\<exists>ds. Gdeflate_compress (alloc_gdeflate_compressor eng L) ds
                        \<in> set (trace_of (exr_compress_buffer_gdeflate eng d level inp in_bytes out
                                            avail pc psize actual_out h))"
    using built_descriptors_handed [OF L n conjunct1 [OF a] conjunct2 [OF a]] by (rule exI)
qed

text \<open>Three pages of nominal size 16 over an output of 20 bytes.\<close>

theorem last_page_capacity_wraps_witness:
  "(20 :: size_t) < (3 - 1) * 16
   \<and> alloc_gdeflate_compressor sample_engine 4 \<noteq> NULL
   \<and> unat (3 :: size_t) \<le> 2147483647
   \<and> (\<exists>ds. Gdeflate_compress 4096 ds
              \<in> set (trace_of (exr_compress_buffer_gdeflate sample_engine (-1) (-1) 500 5 1000 20 3 16
                                  2000 sample_heap))
            \<and> nbytes (last ds) = 18446744073709551604)"
proof -
  have short: "(20 :: size_t) < (3 - 1) * 16"
    by simp
  have a: "alloc_gdeflate_compressor sample_engine 4 \<noteq> NULL"
    by (simp add: sample_engine_allocates NULL_def)
  have r: "unat (3 :: size_t) \<le> 2147483647"
    by simp
  note t = last_page_capacity_wraps [where L = 4 and n = 3 and level = "-1"
          and d = "-1" and pc = 3 and eng = sample_engine and inp = 500 and in_bytes = 5
          and out = 1000 and avail = 20 and psize = 16 and actual_out = 2000 and h = sample_heap,
          OF _ _ short]
  have t': "(\<forall>c ds. Gdeflate_compress c ds
                   \<in> set (trace_of (exr_compress_buffer_gdeflate sample_engine (-1) (-1) 500 5 1000
                                       20 3 16 2000 sample_heap))
            \<longrightarrow> length ds = unat (3 :: size_t)
                \<and> nbytes (last ds) = 20 - (3 - 1) * 16
                \<and> unat (nbytes (last ds))
                    = 2 ^ 64 - (unat ((3 - 1) * 16 :: size_t) - unat (20 :: size_t))
                \<and> 20 < nbytes (last ds))
         \<and> (alloc_gdeflate_compressor sample_engine 4 \<noteq> NULL \<and> unat (3 :: size_t) \<le> 2147483647
            \<longrightarrow> (\<exists>ds. Gdeflate_compress (alloc_gdeflate_compressor sample_engine 4) ds
                        \<in> set (trace_of (exr_compress_buffer_gdeflate sample_engine (-1) (-1) 500 5
                                            1000 20 3 16 2000 sample_heap))))"
    by (rule t) (simp_all add: EXR_DEFAULT_ZLIB_COMPRESS_LEVEL_def)
  then obtain ds where handed: "Gdeflate_compress (alloc_gdeflate_compressor sample_engine 4) ds
              \<in> set (trace_of (exr_compress_buffer_gdeflate sample_engine (-1) (-1) 500 5 1000 20 3 16
                                  2000 sample_heap))"
    using a r by blast
  have "nbytes (last ds) = 20 - (3 - 1) * 16"
    using t' handed by blast
  then have "nbytes (last ds) = 18446744073709551604"
    by simp
  then show ?thesis
    using short a r handed by (auto simp: sample_engine_allocates)
qed

section \<open>Compaction\<close>

text \<open>
  \<^verbatim>\<open>memmove\<close> seen from the output buffer: the byte at offset \<open>x\<close> after a move to
  offset \<open>d\<close>, for offsets that do not wrap around the address space.
\<close>

lemma memmove_at_offset:
  assumes x: "x < 18446744073709551616" and d: "d < 18446744073709551616"
    and fit: "d + unat len \<le> 18446744073709551616"
  shows "memmove m (out + of_nat d) src len (out + of_nat x :: addr) =
           (if d \<le> x \<and> x < d + unat len then m (src + of_nat (x - d)) else m (out + of_nat x))"
proof -
  have diff: "(out + of_nat x) - (out + of_nat d) = (of_nat x - of_nat d :: addr)"
    by simp
  have unfolded: "memmove m (out + of_nat d) src len (out + of_nat x :: addr) =
      (if (of_nat x - of_nat d :: addr) < len then m (src + (of_nat x - of_nat d))
       else m (out + of_nat x))"
    unfolding memmove_def diff ..
  show ?thesis
  proof (cases "d \<le> x")
    case True
    then have e: "(of_nat x - of_nat d :: addr) = of_nat (x - d)"
      by simp
    have u: "unat (of_nat (x - d) :: addr) = x - d"
      using x by (intro unat_of_nat_size_t) simp
    have lt: "((of_nat (x - d) :: addr) < len) = (x - d < unat len)"
      unfolding word_less_nat_alt u ..
    have "(x - d < unat len) = (d \<le> x \<and> x < d + unat len)"
      using True by auto
    then show ?thesis
      unfolding unfolded e lt by simp
  next
    case False
    have ux: "unat (of_nat x :: addr) = x" and ud: "unat (of_nat d :: addr) = d"
      using x d by (simp_all add: unat_of_nat_size_t)
    have "unat (of_nat x - of_nat d :: addr) = x + 18446744073709551616 - d"
      unfolding unat_sub_if_size ux ud using False by (simp add: word_size)
    then have "\<not> unat (of_nat x - of_nat d :: addr) < unat len"
      using fit False by simp
    then have nlt: "((of_nat x - of_nat d :: addr) < len) = False"
      unfolding word_less_nat_alt by simp
    show ?thesis
      unfolding unfolded nlt using False by simp
  qed
qed

text \<open>
  Pages that keep within their nominal size \<open>p\<close> (all but the last) start, once
  compacted, at or before their own slot, and every slot lies within the address space
  when the last one does.
\<close>

lemma used_before_le:
  assumes U: "\<forall>j. Suc j < N \<longrightarrow> unat (nbytes (ps j)) \<le> p"
  shows "j < N \<Longrightarrow> used_before ps j \<le> j * p"
proof (induction j)
  case 0
  then show ?case by simp
next
  case (Suc j)
  then have "used_before ps j \<le> j * p" by simp
  moreover have "unat (nbytes (ps j)) \<le> p"
    using U Suc.prems by simp
  ultimately show ?case by simp
qed

lemma page_extent:
  assumes U: "\<forall>j. Suc j < N \<longrightarrow> unat (nbytes (ps j)) \<le> p"
    and E: "(N - 1) * p + unat (nbytes (ps (N - 1))) < (18446744073709551616 :: nat)"
    and j: "j < N"
  shows "j * p + unat (nbytes (ps j)) < 18446744073709551616"
proof (cases "Suc j < N")
  case True
  then have "unat (nbytes (ps j)) \<le> p"
    using U by simp
  then have "j * p + unat (nbytes (ps j)) \<le> Suc j * p"
    by simp
  also have "\<dots> \<le> (N - 1) * p"
    using True by (intro mult_le_mono1) simp
  finally show ?thesis using E by simp
next
  case False
  then have "j = N - 1" using j by simp
  then show ?thesis using E by simp
qed

text \<open>
  The loop from page \<open>I\<close> on, started where the compacted pages before \<open>I\<close> end:
  it returns, it moves every later page to the end of its predecessor, and it leaves the
  bytes before its starting point alone.
\<close>

lemma compact_loop_effect:
  fixes ps :: "nat \<Rightarrow> libdeflate_gdeflate_out_page" and n psize :: size_t
  assumes D: "\<forall>j<unat n. data (ps j) = out + of_nat j * psize"
    and U: "\<forall>j. Suc j < unat n \<longrightarrow> unat (nbytes (ps j)) \<le> unat psize"
    and E: "(unat n - 1) * unat psize + unat (nbytes (ps (unat n - 1))) < 18446744073709551616"
    and R: "unat n \<le> 2147483647"
    and I: "1 \<le> I" "I \<le> unat n"
  shows "\<exists>m'. compact_loop ps n (int I) (out + of_nat (used_before ps I)) m = Inr m'
     \<and> (\<forall>j k. I \<le> j \<and> j < unat n \<and> k < unat (nbytes (ps j))
            \<longrightarrow> m' (out + of_nat (used_before ps j + k)) = m (out + of_nat (j * unat psize + k)))
     \<and> (\<forall>x<used_before ps I. m' (out + of_nat x) = m (out + of_nat x))"
  using I
proof (induction "unat n - I" arbitrary: I m)
  case 0
  then have "I = unat n" by simp
  then have "(of_int (int I) :: size_t) = n" by simp
  then have "compact_loop ps n (int I) (out + of_nat (used_before ps I)) m = Inr m"
    by (subst compact_loop.simps) simp
  then show ?case using \<open>I = unat n\<close> by auto
next
  case (Suc k)
  then have lt: "I < unat n" by simp
  have uI: "unat (of_int (int I) :: size_t) = I"
    using lt R by (simp add: unat_of_nat_size_t)
  have cond: "(of_int (int I) :: size_t) < n"
    using lt uI by (simp add: word_less_nat_alt)
  have noov: "\<not> INT_MAX \<le> int I"
    using lt R by (simp add: INT_MAX_def)
  let ?dest = "out + of_nat (used_before ps I) :: addr"
  let ?m1 = "memmove m ?dest (data (ps I)) (nbytes (ps I))"
  have dest': "?dest + nbytes (ps I) = out + of_nat (used_before ps (Suc I))"
    by simp
  have step: "compact_loop ps n (int I) ?dest m
                = compact_loop ps n (int (Suc I)) (out + of_nat (used_before ps (Suc I))) ?m1"
    using cond noov dest' by (subst compact_loop.simps) (simp add: Let_def ac_simps)
  have SI: "used_before ps I \<le> I * unat psize"
    using used_before_le [OF U lt] .
  have ext: "I * unat psize + unat (nbytes (ps I)) < 18446744073709551616"
    using page_extent [OF U E lt] .
  have m1: "?m1 (out + of_nat x) =
              (if used_before ps I \<le> x \<and> x < used_before ps I + unat (nbytes (ps I))
               then m (data (ps I) + of_nat (x - used_before ps I)) else m (out + of_nat x))"
    if "x < 18446744073709551616" for x
    using that SI ext by (intro memmove_at_offset) auto
  have kk: "k = unat n - Suc I"
    using Suc.hyps(2) by simp
  have "\<exists>m'. compact_loop ps n (int (Suc I)) (out + of_nat (used_before ps (Suc I))) ?m1 = Inr m'
     \<and> (\<forall>j k. Suc I \<le> j \<and> j < unat n \<and> k < unat (nbytes (ps j))
            \<longrightarrow> m' (out + of_nat (used_before ps j + k)) = ?m1 (out + of_nat (j * unat psize + k)))
     \<and> (\<forall>x<used_before ps (Suc I). m' (out + of_nat x) = ?m1 (out + of_nat x))"
    by (rule Suc.hyps(1) [OF kk]) (use lt in simp_all)
  then obtain m' where run: "compact_loop ps n (int (Suc I)) (out + of_nat (used_before ps (Suc I))) ?m1
                          = Inr m'"
    and later: "\<forall>j k. Suc I \<le> j \<and> j < unat n \<and> k < unat (nbytes (ps j))
            \<longrightarrow> m' (out + of_nat (used_before ps j + k)) = ?m1 (out + of_nat (j * unat psize + k))"
    and before: "\<forall>x<used_before ps (Suc I). m' (out + of_nat x) = ?m1 (out + of_nat x)"
    by (elim exE conjE)
  have a: "m' (out + of_nat (used_before ps j + k)) = m (out + of_nat (j * unat psize + k))"
    if j: "I \<le> j" "j < unat n" and k: "k < unat (nbytes (ps j))" for j k
  proof (cases "j = I")
    case True
    have "m' (out + of_nat (used_before ps I + k)) = ?m1 (out + of_nat (used_before ps I + k))"
      using k True by (intro before [rule_format]) simp
    also have "\<dots> = m (data (ps I) + of_nat k)"
      using m1 [of "used_before ps I + k"] SI ext k True by simp
    also have "\<dots> = m (out + of_nat (I * unat psize + k))"
      using D lt by (simp add: add.assoc)
    finally show ?thesis using True by simp
  next
    case False
    then have sj: "Suc I \<le> j" using j by simp
    then have sI: "Suc I < unat n" using j by simp
    have uIp: "unat (nbytes (ps I)) \<le> unat psize"
      using U sI by simp
    have "Suc I * unat psize \<le> j * unat psize"
      using sj by (intro mult_le_mono1)
    then have far: "used_before ps I + unat (nbytes (ps I)) \<le> j * unat psize + k"
      using SI uIp by simp
    have xb: "j * unat psize + k < 18446744073709551616"
      using page_extent [OF U E j(2)] k by simp
    have "m' (out + of_nat (used_before ps j + k)) = ?m1 (out + of_nat (j * unat psize + k))"
      using sj j k by (intro later [rule_format]) simp
    also have "\<dots> = m (out + of_nat (j * unat psize + k))"
      using m1 [OF xb] far by simp
    finally show ?thesis .
  qed
  have b: "m' (out + of_nat x) = m (out + of_nat x)" if x: "x < used_before ps I" for x
  proof -
    have "x < 18446744073709551616" using x SI ext by simp
    then have "?m1 (out + of_nat x) = m (out + of_nat x)"
      using m1 [of x] x by simp
    moreover have "m' (out + of_nat x) = ?m1 (out + of_nat x)"
      using x by (intro before [rule_format]) simp
    ultimately show ?thesis by simp
  qed
  show ?case
    using step run a b by simp
qed

lemma compaction_from_first_page:
  fixes ps :: "nat \<Rightarrow> libdeflate_gdeflate_out_page" and n psize :: size_t
  assumes D: "\<forall>j<unat n. data (ps j) = out + of_nat j * psize"
    and U: "\<forall>j. Suc j < unat n \<longrightarrow> unat (nbytes (ps j)) \<le> unat psize"
    and E: "(unat n - 1) * unat psize + unat (nbytes (ps (unat n - 1))) < 18446744073709551616"
    and R: "unat n \<le> 2147483647"
    and pos: "0 < unat n"
    and run: "compact_loop ps n 1 (data (ps 0) + nbytes (ps 0)) m0 = Inr m"
    and j: "j < unat n" and k: "k < unat (nbytes (ps j))"
  shows "m (out + of_nat (used_before ps j + k)) = m0 (data (ps j) + of_nat k)"
proof -
  have dest: "data (ps 0) + nbytes (ps 0) = out + of_nat (used_before ps 1)"
    using D pos by simp
  have "\<exists>m'. compact_loop ps n (int 1) (out + of_nat (used_before ps 1)) m0 = Inr m'
     \<and> (\<forall>j k. 1 \<le> j \<and> j < unat n \<and> k < unat (nbytes (ps j))
            \<longrightarrow> m' (out + of_nat (used_before ps j + k)) = m0 (out + of_nat (j * unat psize + k)))
     \<and> (\<forall>x<used_before ps 1. m' (out + of_nat x) = m0 (out + of_nat x))"
    by (rule compact_loop_effect [OF D U E R]) (use pos in simp_all)
  then have later: "\<forall>j k. 1 \<le> j \<and> j < unat n \<and> k < unat (nbytes (ps j))
            \<longrightarrow> m (out + of_nat (used_before ps j + k)) = m0 (out + of_nat (j * unat psize + k))"
    and first: "\<forall>x<used_before ps 1. m (out + of_nat x) = m0 (out + of_nat x)"
    using run unfolding dest by auto
  have src: "data (ps j) + of_nat k = out + of_nat (j * unat psize + k)"
    using D j by (simp add: add.assoc)
  show ?thesis
  proof (cases "j = 0")
    case True
    have "m (out + of_nat k) = m0 (out + of_nat k)"
      using k True by (intro first [rule_format]) simp
    then show ?thesis
      using True src by simp
  next
    case False
    have "m (out + of_nat (used_before ps j + k)) = m0 (out + of_nat (j * unat psize + k))"
      using False j k by (intro later [rule_format]) simp
    then show ?thesis
      unfolding src .
  qed
qed

text \<open>
  Claim C5. Take a page-split compression that succeeds: the compressor is allocated,
  the descriptors \<open>ps\<close> are built, and the engine returns a size \<open>outsz\<close> other than
  zero, the descriptors \<open>ps1\<close> with the used length of each page, and the heap \<open>h1\<close>
  it wrote the pages into. The engine is taken to keep its contract: it leaves the data
  pointers as they were built, no page but the last uses more than the page size, and
  the pages lie within the address space. Then the call returns success; byte \<open>k\<close>
  of page \<open>j\<close> stands at offset \<open>used_before ps1 j + k\<close> of the output, that is,
  page 0 at offset 0 and every later page right behind the one before it; the length
  stored through a non-null \<^verbatim>\<open>actual_out\<close> is the size the engine returned, which is
  the sum of the used lengths when the engine returns that sum as its total; and with
  one page the compaction changes no byte.
\<close>

theorem compaction_is_contiguous:
  assumes L: "L = (if 0 \<le> level then level else if 0 \<le> d then d
                  else EXR_DEFAULT_ZLIB_COMPRESS_LEVEL)"
    and n: "n = (if pc = 0 then 1 else pc)"
    and alloc: "alloc_gdeflate_compressor eng L \<noteq> NULL"
    and pages: "out_pages_loop out avail psize (n - 1) 0 (\<lambda>i. \<lparr>data = 0, nbytes = 0\<rparr>) = Inr ps"
    and engine: "gdeflate_compress eng (alloc_gdeflate_compressor eng L) inp in_bytes ps n h
                   = (outsz, ps1, h1)"
    and success: "outsz \<noteq> 0"
    and D: "\<forall>j<unat n. data (ps1 j) = data (ps j)"
    and U: "\<forall>j. Suc j < unat n \<longrightarrow> nbytes (ps1 j) \<le> psize"
    and E: "(unat n - 1) * unat psize + unat (nbytes (ps1 (unat n - 1))) < 2 ^ 64"
  shows "result_of (exr_compress_buffer_gdeflate eng d level inp in_bytes out avail pc psize
                      actual_out h) = Returned EXR_ERR_SUCCESS
     \<and> (\<forall>j k. j < unat n \<and> k < unat (nbytes (ps1 j)) \<longrightarrow>
           bytes (heap_of (exr_compress_buffer_gdeflate eng d level inp in_bytes out avail pc
                             psize actual_out h))
             (out + of_nat (used_before ps1 j + k))
           = bytes h1 (data (ps1 j) + of_nat k))
     \<and> (actual_out \<noteq> NULL \<longrightarrow>
           cells (heap_of (exr_compress_buffer_gdeflate eng d level inp in_bytes out avail
                             pc psize actual_out h)) actual_out
           = outsz)
     \<and> (actual_out \<noteq> NULL \<and> unat outsz = used_before ps1 (unat n) \<longrightarrow>
           unat (cells (heap_of (exr_compress_buffer_gdeflate eng d level inp in_bytes out avail
                                   pc psize actual_out h)) actual_out)
           = used_before ps1 (unat n))
     \<and> (unat n = 1 \<longrightarrow>
           bytes (heap_of (exr_compress_buffer_gdeflate eng d level inp in_bytes out avail pc
                             psize actual_out h))
           = bytes h1)"
proof -
  note alloc' = alloc [unfolded L EXR_DEFAULT_ZLIB_COMPRESS_LEVEL_def]
  note pages' = pages [unfolded n]
  note engine' = engine [unfolded L n EXR_DEFAULT_ZLIB_COMPRESS_LEVEL_def]
  have R: "unat n \<le> 2147483647"
    using out_pages_Inr_range [OF n pages] .
  have pos: "0 < unat n"
    using page_count_pred [OF n] by simp
  have "ps = (\<lambda>j. if j < unat n
                  then \<lparr>data = out + of_nat j * psize,
                        nbytes = (if j < unat n - 1 then psize else avail - (n - 1) * psize)\<rparr>
                  else \<lparr>data = 0, nbytes = 0\<rparr>)"
    using out_pages_built [OF n R, of out avail psize "\<lambda>i. \<lparr>data = 0, nbytes = 0\<rparr>"] pages
    by simp
  then have D': "\<forall>j<unat n. data (ps1 j) = out + of_nat j * psize"
    using D by simp
  have U': "\<forall>j. Suc j < unat n \<longrightarrow> unat (nbytes (ps1 j)) \<le> unat psize"
    using U by (simp add: word_le_nat_alt)
  have E': "(unat n - 1) * unat psize + unat (nbytes (ps1 (unat n - 1))) < 18446744073709551616"
    using E by simp
  show ?thesis
  proof (cases rule: gdeflate_run_cases [where eng = eng and d = d and level = level
        and inp = inp and in_bytes = in_bytes and out = out and avail = avail and pc = pc
        and psize = psize and actual_out = actual_out and h = h])
    case alloc_failed
    then show ?thesis using alloc' by simp
  next
    case (overflow f)
    then show ?thesis using pages' by simp
  next
    case (no_output ps' ps1' h1')
    then show ?thesis using pages' engine' success by simp
  next
    case (compacted ps' outsz' ps1' h1' m)
    have same: "ps' = ps" "outsz' = outsz" "ps1' = ps1" "h1' = h1"
      using compacted(2,3) pages' engine' by simp_all
    have run: "compact_loop ps1 n 1 (data (ps1 0) + nbytes (ps1 0)) (bytes h1) = Inr m"
      using compacted(5) same unfolding n by simp
    have res: "result_of (exr_compress_buffer_gdeflate eng d level inp in_bytes out avail pc psize
                      actual_out h) = Returned EXR_ERR_SUCCESS"
      using compacted(6) by (simp add: result_of_def)
    have hb: "bytes (heap_of (exr_compress_buffer_gdeflate eng d level inp in_bytes out avail pc
                             psize actual_out h)) = m"
      using compacted(6) by (simp add: heap_of_def)
    have hc: "cells (heap_of (exr_compress_buffer_gdeflate eng d level inp in_bytes out avail
                                   pc psize actual_out h)) actual_out = outsz"
      if "actual_out \<noteq> NULL"
      using compacted(6) same that by (simp add: heap_of_def)
    have moved: "m (out + of_nat (used_before ps1 j + k)) = bytes h1 (data (ps1 j) + of_nat k)"
      if "j < unat n" and "k < unat (nbytes (ps1 j))" for j k
      using compaction_from_first_page [OF D' U' E' R pos run that] .
    have single: "m = bytes h1" if "unat n = 1"
    proof -
      have "n = 1" using that by (simp add: word_unat_eq_iff)
      then have "compact_loop ps1 n 1 (data (ps1 0) + nbytes (ps1 0)) (bytes h1) = Inr (bytes h1)"
        by (subst compact_loop.simps) simp
      then show ?thesis using run by simp
    qed
    show ?thesis
      unfolding hb using res moved hc single by simp
  qed
qed

text \<open>
  The sample engine on two pages of nominal size 8: it uses three bytes of page 0 (at
  1000) and two of page 1 (at 1008), which end up at 1003 and 1004.
\<close>

theorem compaction_is_contiguous_witness:
  "result_of (exr_compress_buffer_gdeflate sample_engine (-1) (-1) 500 5 1000 20 2 8 2000
                sample_heap) = Returned EXR_ERR_SUCCESS
   \<and> bytes (heap_of (exr_compress_buffer_gdeflate sample_engine (-1) (-1) 500 5 1000 20 2 8 2000
                        sample_heap)) 1000 = 10
   \<and> bytes (heap_of (exr_compress_buffer_gdeflate sample_engine (-1) (-1) 500 5 1000 20 2 8 2000
                        sample_heap)) 1002 = 12
   \<and> bytes (heap_of (exr_compress_buffer_gdeflate sample_engine (-1) (-1) 500 5 1000 20 2 8 2000
                        sample_heap)) 1003 = 20
   \<and> bytes (heap_of (exr_compress_buffer_gdeflate sample_engine (-1) (-1) 500 5 1000 20 2 8 2000
                        sample_heap)) 1004 = 21
   \<and> unat (cells (heap_of (exr_compress_buffer_gdeflate sample_engine (-1) (-1) 500 5 1000 20 2 8
                              2000 sample_heap)) 2000) = 5"
proof -
  define ps where "ps = (\<lambda>j. if j < unat (2 :: size_t)
                  then \<lparr>data = 1000 + of_nat j * 8,
                        nbytes = (if j < unat (2 :: size_t) - 1 then 8 else 20 - (2 - 1) * 8)\<rparr>
                  else \<lparr>data = 0, nbytes = 0\<rparr>)"
  define ps1 where "ps1 = (\<lambda>i. (ps i)\<lparr>nbytes := (if i = 0 then 3 else 2)\<rparr>)"
  define h1 where "h1 = sample_heap\<lparr>bytes := (bytes sample_heap)
      (data (ps 0) := 10, data (ps 0) + 1 := 11, data (ps 0) + 2 := 12,
       data (ps 1) := 20, data (ps 1) + 1 := 21)\<rparr>"
  have alloc: "alloc_gdeflate_compressor sample_engine 4 \<noteq> NULL"
    by (simp add: sample_engine_allocates NULL_def)
  have pages: "out_pages_loop 1000 20 8 (2 - 1) 0 (\<lambda>i. \<lparr>data = 0, nbytes = 0\<rparr>) = Inr ps"
    unfolding ps_def by (rule out_pages_built [where pc = 2]) simp_all
  have engine: "gdeflate_compress sample_engine (alloc_gdeflate_compressor sample_engine 4) 500 5 ps
                  2 sample_heap = (5, ps1, h1)"
    by (simp add: sample_engine_def ps1_def h1_def)
  have u1: "used_before ps1 (Suc 0) = 3" and u2: "used_before ps1 (Suc (Suc 0)) = 5"
    by (simp_all add: ps1_def)
  have used: "used_before ps1 1 = 3" "used_before ps1 2 = 5"
    unfolding One_nat_def numeral_2_eq_2 by (fact u1, fact u2)
  have total: "unat (5 :: size_t) = used_before ps1 (unat (2 :: size_t))"
    using used by simp
  have D: "\<forall>j<unat (2 :: size_t). data (ps1 j) = data (ps j)"
    by (simp add: ps1_def)
  have U: "\<forall>j. Suc j < unat (2 :: size_t) \<longrightarrow> nbytes (ps1 j) \<le> 8"
    by (simp add: ps1_def)
  have E: "(unat (2 :: size_t) - 1) * unat (8 :: size_t) + unat (nbytes (ps1 (unat (2 :: size_t) - 1)))
             < 2 ^ 64"
    by (simp add: ps1_def)
  note t = compaction_is_contiguous [where L = 4 and level = "-1" and d = "-1" and n = 2 and pc = 2
      and eng = sample_engine and inp = 500 and in_bytes = 5 and out = 1000 and avail = 20
      and psize = 8 and actual_out = 2000 and h = sample_heap,
      OF _ _ alloc pages engine _ D U E]
  have t': "result_of (exr_compress_buffer_gdeflate sample_engine (-1) (-1) 500 5 1000 20 2 8 2000
                      sample_heap) = Returned EXR_ERR_SUCCESS
     \<and> (\<forall>j k. j < unat (2 :: size_t) \<and> k < unat (nbytes (ps1 j)) \<longrightarrow>
           bytes (heap_of (exr_compress_buffer_gdeflate sample_engine (-1) (-1) 500 5 1000 20 2 8
                             2000 sample_heap))
             (1000 + of_nat (used_before ps1 j + k))
           = bytes h1 (data (ps1 j) + of_nat k))
     \<and> ((2000 :: addr) \<noteq> NULL \<longrightarrow>
           cells (heap_of (exr_compress_buffer_gdeflate sample_engine (-1) (-1) 500 5 1000 20
                             2 8 2000 sample_heap)) 2000
           = 5)
     \<and> ((2000 :: addr) \<noteq> NULL \<and> unat (5 :: size_t) = used_before ps1 (unat (2 :: size_t)) \<longrightarrow>
           unat (cells (heap_of (exr_compress_buffer_gdeflate sample_engine (-1) (-1) 500 5 1000 20
                                   2 8 2000 sample_heap)) 2000)
           = used_before ps1 (unat (2 :: size_t)))
     \<and> (unat (2 :: size_t) = 1 \<longrightarrow>
           bytes (heap_of (exr_compress_buffer_gdeflate sample_engine (-1) (-1) 500 5 1000 20 2 8
                             2000 sample_heap))
           = bytes h1)"
    by (rule t) (simp_all add: EXR_DEFAULT_ZLIB_COMPRESS_LEVEL_def)
  then have moved: "bytes (heap_of (exr_compress_buffer_gdeflate sample_engine (-1) (-1) 500 5 1000 20 2 8
                             2000 sample_heap))
             (1000 + of_nat (used_before ps1 j + k))
           = bytes h1 (data (ps1 j) + of_nat k)"
    if "j < unat (2 :: size_t)" and "k < unat (nbytes (ps1 j))" for j k
    using that by blast
  have b0: "bytes (heap_of (exr_compress_buffer_gdeflate sample_engine (-1) (-1) 500 5 1000 20 2 8 2000
                        sample_heap)) 1000 = 10"
    using moved [of 0 0] by (simp add: ps1_def ps_def h1_def)
  have b2: "bytes (heap_of (exr_compress_buffer_gdeflate sample_engine (-1) (-1) 500 5 1000 20 2 8 2000
                        sample_heap)) 1002 = 12"
    using moved [of 0 2] by (simp add: ps1_def ps_def h1_def)
  have b3: "bytes (heap_of (exr_compress_buffer_gdeflate sample_engine (-1) (-1) 500 5 1000 20 2 8 2000
                        sample_heap)) 1003 = 20"
    using moved [of 1 0] used by (simp add: ps1_def ps_def h1_def)
  have b4: "bytes (heap_of (exr_compress_buffer_gdeflate sample_engine (-1) (-1) 500 5 1000 20 2 8 2000
                        sample_heap)) 1004 = 21"
    using moved [of 1 1] used by (simp add: ps1_def ps_def h1_def)
  have c: "unat (cells (heap_of (exr_compress_buffer_gdeflate sample_engine (-1) (-1) 500 5 1000 20 2 8
                              2000 sample_heap)) 2000) = 5"
    using t' used total by (simp add: NULL_def)
  show ?thesis
    using t' b0 b2 b3 b4 c by blast
qed

end
